theory Spec2Isabelle
  imports Main "HOL-Library.AList"
begin

section \<open>The document tree\<close>

text \<open>
  An element has an identity, a tag name, its attributes, its current value (the
  \<^verbatim>\<open>value\<close> property of an input or textarea) and its child elements. A document, and
  the child list of an element, is a list of elements; text nodes play no part in the
  component and are left out. Identities are meant to be unique across the page and the
  documents of the responses.
\<close>

datatype node = Node (nid: nat) (tag: string) (attrs: "(string \<times> string) list")
  (nvalue: string) (children: "node list")

text \<open>All elements of a forest in document order (pre-order).\<close>

fun elements :: "node list \<Rightarrow> node list" where
  "elements [] = []"
| "elements (Node i t a v cs # ns) = Node i t a v cs # elements cs @ elements ns"

definition getAttribute :: "node \<Rightarrow> string \<Rightarrow> string option" where
  "getAttribute n a = map_of (attrs n) a"

text \<open>
  The fragment of CSS selectors the component works with: type selectors, attribute
  presence and equality, \<^verbatim>\<open>:is(...)\<close>, compound selectors and \<^verbatim>\<open>:has(...)\<close> over
  descendants.
\<close>

datatype selector =
    SelTag string
  | SelAttr string
  | SelAttrEq string string
  | SelIs "selector list"
  | SelAnd selector selector
  | SelHas selector

fun matches :: "selector \<Rightarrow> node \<Rightarrow> bool" where
  "matches (SelTag t) n = (tag n = t)"
| "matches (SelAttr a) n = (getAttribute n a \<noteq> None)"
| "matches (SelAttrEq a v) n = (getAttribute n a = Some v)"
| "matches (SelIs ss) n = list_ex (\<lambda>s. matches s n) ss"
| "matches (SelAnd s1 s2) n = (matches s1 n \<and> matches s2 n)"
| "matches (SelHas s) n = list_ex (matches s) (elements (children n))"

text \<open>
  \<^verbatim>\<open>querySelector\<close> of a document or of an element: the first match, in document
  order, among the descendants.
\<close>

definition first_match :: "selector \<Rightarrow> node list \<Rightarrow> node option" where
  "first_match sel ns = find (matches sel) (elements ns)"

text \<open>The chain of elements from a top-level element of the forest down to element \<open>i\<close>.\<close>

fun path_in :: "nat \<Rightarrow> node list \<Rightarrow> node list" where
  "path_in i [] = []"
| "path_in i (Node j t a v cs # ns) =
     (if j = i then [Node j t a v cs]
      else (case path_in i cs of
              [] \<Rightarrow> path_in i ns
            | p # ps \<Rightarrow> Node j t a v cs # p # ps))"

text \<open>
  \<^verbatim>\<open>cur.replaceWith(new)\<close> inside a forest: the element whose identity is \<open>c\<close> gives
  its place to \<open>new\<close>.
\<close>

fun replace_in :: "nat \<Rightarrow> node \<Rightarrow> node list \<Rightarrow> node list" where
  "replace_in c new [] = []"
| "replace_in c new (Node j t a v cs # ns) =
     (if j = c then new # replace_in c new ns
      else Node j t a v (replace_in c new cs) # replace_in c new ns)"

section \<open>Platform values\<close>

text \<open>
  What \<^verbatim>\<open>AbortController.abort\<close> was given: nothing (the platform then uses its
  \<^verbatim>\<open>AbortError\<close>), or a reason of the caller's.
\<close>

datatype abort_reason = DefaultAbort | Because string

datatype exn =
    TypeError
  | SyntaxError
  | InvalidStateError
  | NetworkError
  | Aborted abort_reason
  | Error string

text \<open>
  The browser as the component sees it: the CSS parser (\<open>None\<close> is a syntax error),
  whether \<^verbatim>\<open>document.startViewTransition\<close> exists, the origin of
  \<^verbatim>\<open>window.location\<close>, and the origin of an absolute URL (\<open>None\<close> where \<^verbatim>\<open>new URL\<close>
  throws).
\<close>

record platform =
  css :: "string \<Rightarrow> selector option"
  startViewTransition :: bool
  location_origin :: string
  url_origin :: "string \<Rightarrow> string option"

text \<open>The empty string is no selector, whatever the parser.\<close>

definition parse_selector :: "platform \<Rightarrow> string \<Rightarrow> selector option" where
  "parse_selector env s = (if s = [] then None else css env s)"

text \<open>
  A response: status, headers, the \<^verbatim>\<open>redirected\<close> flag, the final URL, and what
  reading and parsing the body gives.
\<close>

record response =
  status :: nat
  headers :: "(string \<times> string) list"
  redirected :: bool
  url :: string
  body :: "exn + node list"

datatype outcome = Rejected exn | Resolved response

text \<open>
  A request as \<^verbatim>\<open>fetch\<close> receives it: the form's action, the one header, the form the
  \<^verbatim>\<open>FormData\<close> is taken from, and the signal (the identity of its controller).
\<close>

record request =
  req_url :: string
  req_header :: "string \<times> string"
  req_body :: node
  req_signal :: "nat option"

text \<open>
  An \<^verbatim>\<open>AbortController\<close>: \<open>chan\<close> is the key of the \<^verbatim>\<open>controllers.set\<close> call that
  created it, \<open>aborted\<close> the reason once it is aborted.
\<close>

record token =
  chan :: string
  aborted :: "abort_reason option"

datatype listener = OnBlur | OnSubmit

text \<open>What the component does to the outside, in the order it does it.\<close>

datatype effect =
    PreventDefault
  | Abort nat abort_reason
  | Fetch request
  | Assign string
  | Warn exn

section \<open>The component\<close>

text \<open>
  \<open>page\<close> is the live document and \<open>limbo\<close> the trees that were taken out of it (they
  stay reachable from listeners and from the component itself); \<open>self\<close> is the
  \<^verbatim>\<open><enhance-form>\<close> element. \<open>tokens\<close> holds every controller created so far, a
  controller's identity being its index. \<open>focused\<close> and \<open>selection\<close> record the last
  \<^verbatim>\<open>focus()\<close> and \<^verbatim>\<open>setSelectionRange\<close> call, \<open>transitions\<close> the callbacks handed
  to \<^verbatim>\<open>startViewTransition\<close> that have not run yet, \<open>inflight\<close> the requests not yet
  settled.
\<close>

record state =
  page :: "node list"
  limbo :: "node list"
  self :: nat
  this_form :: "nat option"
  this_targetSelector :: string
  this_failTargetSelector :: string
  this_controllers :: "(string \<times> nat) list"
  tokens :: "token list"
  listeners :: "(nat \<times> listener) list"
  inflight :: "request list"
  transitions :: "(node list \<times> nat) list"
  focused :: "nat option"
  selection :: "(nat \<times> nat \<times> nat) option"
  trace :: "effect list"

text \<open>A call returns a value, or throws, and either way leaves a state.\<close>

datatype 'a res = Ok 'a state | Threw exn state

definition Redirect :: string where "Redirect = ''X-Enhance-Redirect''"
definition Submit :: string where "Submit = ''X-Enhance-Submit''"
definition Validate :: string where "Validate = ''X-Enhance-Validate''"

subsection \<open>Selectors written in the source\<close>

text \<open>\<^verbatim>\<open>form\<close>\<close>

definition form_selector :: selector where
  "form_selector = SelTag ''form''"

text \<open>\<^verbatim>\<open>:is(input, textarea)[enhance-validate]\<close>\<close>

definition validate_selector :: selector where
  "validate_selector =
     SelAnd (SelIs [SelTag ''input'', SelTag ''textarea'']) (SelAttr ''enhance-validate'')"

text \<open>\<^verbatim>\<open>:is(input, textarea)[aria-invalid="true"]\<close>\<close>

definition invalid_selector :: selector where
  "invalid_selector =
     SelAnd (SelIs [SelTag ''input'', SelTag ''textarea'']) (SelAttrEq ''aria-invalid'' ''true'')"

text \<open>
  \<^verbatim>\<open>:is([enhance-form-group], fieldset):has([name="${target.name}"])\<close>, for a field name
  that needs no escaping inside the quotes.
\<close>

definition groupSelector :: "string \<Rightarrow> selector" where
  "groupSelector name =
     SelAnd (SelIs [SelAttr ''enhance-form-group'', SelTag ''fieldset''])
            (SelHas (SelAttrEq ''name'' name))"

subsection \<open>Elements by identity\<close>

text \<open>
  A reference to an element is its identity, looked up in the page and then in the
  detached trees. A reference of the component always denotes an element that is in one
  of them, so where a definition below has a branch for a failed lookup, that branch
  stands for nothing the source can do.
\<close>

definition lookup_in :: "nat \<Rightarrow> node list \<Rightarrow> node option" where
  "lookup_in i ns = find (\<lambda>n. nid n = i) (elements ns)"

definition lookup :: "state \<Rightarrow> nat \<Rightarrow> node option" where
  "lookup s i = lookup_in i (page s @ limbo s)"

definition replace_below :: "nat \<Rightarrow> node \<Rightarrow> node \<Rightarrow> node" where
  "replace_below c new t = Node (nid t) (tag t) (attrs t) (nvalue t) (replace_in c new (children t))"

text \<open>
  \<^verbatim>\<open>cur.replaceWith(new)\<close>: an element of the page, or one below the root of a detached
  tree, gives its place to \<open>new\<close> and becomes a detached tree itself; an element without
  parent (the root of a detached tree) stays as it is.
\<close>

definition replaceWith :: "nat \<Rightarrow> node \<Rightarrow> state \<Rightarrow> state" where
  "replaceWith c new s =
     (case lookup_in c (page s) of
        Some old \<Rightarrow> s\<lparr>page := replace_in c new (page s), limbo := limbo s @ [old]\<rparr>
      | None \<Rightarrow>
          (case lookup_in c (concat (map children (limbo s))) of
             Some old \<Rightarrow> s\<lparr>limbo := map (replace_below c new) (limbo s) @ [old]\<rparr>
           | None \<Rightarrow> s))"

text \<open>\<^verbatim>\<open>this.querySelector(selector)\<close>\<close>

definition this_querySelector :: "selector \<Rightarrow> state \<Rightarrow> node option" where
  "this_querySelector sel s =
     (case lookup s (self s) of
        None \<Rightarrow> None
      | Some n \<Rightarrow> first_match sel (children n))"

text \<open>\<^verbatim>\<open>this.closest(selector)\<close>: the component itself or its nearest ancestor that matches.\<close>

definition this_closest :: "selector option \<Rightarrow> state \<Rightarrow> node option res" where
  "this_closest selector s =
     (case selector of
        None \<Rightarrow> Threw SyntaxError s
      | Some sel \<Rightarrow> Ok (find (matches sel) (rev (path_in (self s) (page s @ limbo s)))) s)"

subsection \<open>Small helpers of the source and of the platform\<close>

text \<open>JavaScript's \<^verbatim>\<open>a || b\<close> on an attribute value: null and the empty string are falsy.\<close>

definition or_else :: "string option \<Rightarrow> string \<Rightarrow> string" where
  "or_else a b = (case a of None \<Rightarrow> b | Some v \<Rightarrow> if v = [] then b else v)"

text \<open>\<^verbatim>\<open>target.name\<close> and \<^verbatim>\<open>form.action\<close>, read from the attribute.\<close>

definition name_of :: "node \<Rightarrow> string" where
  "name_of n = or_else (getAttribute n ''name'') []"

definition action_of :: "node \<Rightarrow> string" where
  "action_of n = or_else (getAttribute n ''action'') []"

text \<open>
  \<^verbatim>\<open>headers.append(name, value)\<close> of the platform: the value loses the HTTP white space
  (tab, line feed, carriage return, space) at both ends; a value that then still holds a
  NUL, a line feed or a carriage return is no header value, and the call throws a
  \<^verbatim>\<open>TypeError\<close>. A string of the model is a string of bytes, so the other cause of that
  error, a character above U+00FF, has no counterpart here.
\<close>

definition http_whitespace :: "char \<Rightarrow> bool" where
  "http_whitespace c = (c = CHR 0x09 \<or> c = CHR 0x0A \<or> c = CHR 0x0D \<or> c = CHR 0x20)"

definition normalize_value :: "string \<Rightarrow> string" where
  "normalize_value v = rev (dropWhile http_whitespace (rev (dropWhile http_whitespace v)))"

definition valid_header_value :: "string \<Rightarrow> bool" where
  "valid_header_value v = list_all (\<lambda>c. c \<noteq> CHR 0x00 \<and> c \<noteq> CHR 0x0A \<and> c \<noteq> CHR 0x0D) v"

text \<open>
  \<^verbatim>\<open>addHeader(name, value)\<close>: new headers with the one header appended, or the
  \<^verbatim>\<open>TypeError\<close> of \<^verbatim>\<open>append\<close>. Both names the source passes are valid header names.
\<close>

definition addHeader :: "string \<Rightarrow> string \<Rightarrow> exn + string \<times> string" where
  "addHeader name v =
     (if valid_header_value (normalize_value v) then Inr (name, normalize_value v)
      else Inl TypeError)"

text \<open>\<^verbatim>\<open>response.headers.get(name)\<close>: null when the response has no such header.\<close>

definition getHeader :: "response \<Rightarrow> string \<Rightarrow> string option" where
  "getHeader response name = map_of (headers response) name"

definition isInternalUrl :: "platform \<Rightarrow> string \<Rightarrow> bool" where
  "isInternalUrl env u =
     (case url_origin env u of
        None \<Rightarrow> True
      | Some ori \<Rightarrow> ori = location_origin env)"

definition emit :: "effect \<Rightarrow> state \<Rightarrow> state" where
  "emit e s = s\<lparr>trace := trace s @ [e]\<rparr>"

text \<open>The \<^verbatim>\<open>catch\<close> block of both handlers: \<^verbatim>\<open>console.warn("Form validation:", error)\<close>.\<close>

definition warn :: "exn \<Rightarrow> state \<Rightarrow> state" where
  "warn e s = emit (Warn e) s"

text \<open>
  \<^verbatim>\<open>controller.abort(reason)\<close>: the first call sets the reason, later calls change
  nothing.
\<close>

definition abort :: "abort_reason \<Rightarrow> nat \<Rightarrow> state \<Rightarrow> state" where
  "abort r c s =
     emit (Abort c r)
       (if c < length (tokens s) \<and> aborted (tokens s ! c) = None
        then s\<lparr>tokens := (tokens s)[c := (tokens s ! c)\<lparr>aborted := Some r\<rparr>]\<rparr>
        else s)"

text \<open>\<^verbatim>\<open>this.controllers.set(key, new AbortController())\<close>\<close>

definition set_controller :: "string \<Rightarrow> state \<Rightarrow> state" where
  "set_controller key s =
     s\<lparr>tokens := tokens s @ [\<lparr>chan = key, aborted = None\<rparr>],
       this_controllers := AList.update key (length (tokens s)) (this_controllers s)\<rparr>"

text \<open>\<^verbatim>\<open>this.controllers.get(key)\<close>\<close>

definition get_controller :: "string \<Rightarrow> state \<Rightarrow> nat option" where
  "get_controller key s = map_of (this_controllers s) key"

definition addEventListener :: "nat \<Rightarrow> listener \<Rightarrow> state \<Rightarrow> state" where
  "addEventListener i l s = s\<lparr>listeners := listeners s @ [(i, l)]\<rparr>"

text \<open>
  \<^verbatim>\<open>setSelectionRange(start, end)\<close> on a value of length \<open>len\<close>: both arguments are
  \<^verbatim>\<open>unsigned long\<close>, and are clamped to the length.
\<close>

definition to_uint32 :: "int \<Rightarrow> nat" where
  "to_uint32 i = nat (i mod 2 ^ 32)"

definition selection_range :: "int \<Rightarrow> int \<Rightarrow> nat \<Rightarrow> nat \<times> nat" where
  "selection_range start end len =
     (let e = min (to_uint32 end) len;
          b = min (min (to_uint32 start) len) e
      in (b, e))"

text \<open>
  \<^verbatim>\<open>setSelectionRange\<close> applies to a textarea and to the text-like input types; on an
  input of another type the call throws.
\<close>

definition selection_applies :: "node \<Rightarrow> bool" where
  "selection_applies n =
     (tag n = ''textarea'' \<or>
      (tag n = ''input'' \<and>
       or_else (getAttribute n ''type'') ''text'' \<notin>
         set [''hidden'', ''email'', ''number'', ''date'', ''month'', ''week'', ''time'',
              ''datetime-local'', ''range'', ''color'', ''checkbox'', ''radio'', ''file'',
              ''submit'', ''image'', ''reset'', ''button'']))"

subsection \<open>The methods of the class\<close>

text \<open>
  The constructor, on the document \<open>doc\<close> holding the element \<open>i\<close> that is being
  upgraded.
\<close>

definition constructor :: "node list \<Rightarrow> nat \<Rightarrow> exn + state" where
  "constructor doc i =
     (let s0 = \<lparr>page = doc, limbo = [], self = i, this_form = None,
                this_targetSelector = [], this_failTargetSelector = [],
                this_controllers = [], tokens = [], listeners = [], inflight = [],
                transitions = [], focused = None, selection = None, trace = []\<rparr>;
          form = this_querySelector form_selector s0;
          target = (case lookup s0 i of None \<Rightarrow> None | Some n \<Rightarrow> getAttribute n ''target'');
          fail = (case lookup s0 i of None \<Rightarrow> None | Some n \<Rightarrow> getAttribute n ''fail-target'');
          s1 = s0\<lparr>this_targetSelector := or_else target [],
                  this_failTargetSelector := or_else fail (or_else target [])\<rparr>
      in (case form of
            None \<Rightarrow> Inl (Error ''No form found in <enhance-form>'')
          | Some f \<Rightarrow> Inr (s1\<lparr>this_form := Some (nid f)\<rparr>)))"

text \<open>
  \<^verbatim>\<open>bindEvents(target?)\<close>. Every call makes a new closure, so a listener added twice is
  there twice.
\<close>

definition bindEvents :: "node option \<Rightarrow> state \<Rightarrow> unit res" where
  "bindEvents target s =
     (case target of
        Some t \<Rightarrow> Ok () (addEventListener (nid t) OnBlur s)
      | None \<Rightarrow>
          (case this_form s of
             None \<Rightarrow> Threw TypeError s
           | Some f \<Rightarrow>
               (let s1 = addEventListener f OnSubmit s;
                    inputs = (case lookup s1 f of
                                None \<Rightarrow> []
                              | Some n \<Rightarrow> filter (matches validate_selector) (elements (children n)))
                in Ok () (fold (\<lambda>input. addEventListener (nid input) OnBlur) inputs s1))))"

definition connectedCallback :: "state \<Rightarrow> unit res" where
  "connectedCallback s = bindEvents None s"

text \<open>\<^verbatim>\<open>replaceElements(html, selector, replaceRootElement?)\<close>\<close>

definition replaceElements ::
  "node list \<Rightarrow> selector option \<Rightarrow> nat option \<Rightarrow> state \<Rightarrow> node option res" where
  "replaceElements html selector replaceRootElement s =
     (case selector of
        None \<Rightarrow> Threw SyntaxError s
      | Some sel \<Rightarrow>
          (let newElement = first_match sel html;
               currentElement =
                 (case replaceRootElement of
                    Some r \<Rightarrow> Some r
                  | None \<Rightarrow> map_option nid (this_querySelector sel s))
           in (case (newElement, currentElement) of
                 (Some n, Some c) \<Rightarrow> Ok (Some n) (replaceWith c n s)
               | _ \<Rightarrow> Ok None s)))"

text \<open>\<^verbatim>\<open>handleRedirect(response)\<close>\<close>

definition handleRedirect :: "response \<Rightarrow> state \<Rightarrow> state" where
  "handleRedirect response s =
     (case getHeader response Redirect of
        None \<Rightarrow> s
      | Some redirectString \<Rightarrow>
          if redirectString = [] then s else emit (Assign redirectString) s)"

text \<open>\<^verbatim>\<open>focusFirstInvalidInput()\<close>\<close>

definition focusFirstInvalidInput :: "state \<Rightarrow> unit res" where
  "focusFirstInvalidInput s =
     (case this_form s of
        None \<Rightarrow> Threw TypeError s
      | Some f \<Rightarrow>
          (case (case lookup s f of
                   None \<Rightarrow> None
                 | Some n \<Rightarrow> first_match invalid_selector (children n)) of
             None \<Rightarrow> Ok () s
           | Some firstInvalidInput \<Rightarrow>
               (let s1 = s\<lparr>focused := Some (nid firstInvalidInput)\<rparr>
                in if selection_applies firstInvalidInput
                   then Ok () (s1\<lparr>selection :=
                          Some (nid firstInvalidInput,
                                selection_range (- 1) (- 1) (length (nvalue firstInvalidInput)))\<rparr>)
                   else Threw InvalidStateError s1)))"

text \<open>
  \<^verbatim>\<open>requestForm(headers, signal)\<close> up to its first \<^verbatim>\<open>await\<close>: the call of \<^verbatim>\<open>fetch\<close>.
  The headers of a request are the one header \<^verbatim>\<open>addHeader\<close> made.
\<close>

definition requestForm_send :: "string \<times> string \<Rightarrow> nat option \<Rightarrow> state \<Rightarrow> request res" where
  "requestForm_send header signal s =
     (case this_form s of
        None \<Rightarrow> Threw TypeError s
      | Some f \<Rightarrow>
          (case lookup s f of
             None \<Rightarrow> Threw TypeError s
           | Some n \<Rightarrow>
               (let r = \<lparr>req_url = action_of n, req_header = header,
                         req_body = n, req_signal = signal\<rparr>
                in Ok r (emit (Fetch r) (s\<lparr>inflight := inflight s @ [r]\<rparr>)))))"

text \<open>\<^verbatim>\<open>requestForm\<close> from the moment \<^verbatim>\<open>fetch\<close> settles.\<close>

definition requestForm_settled ::
  "platform \<Rightarrow> outcome \<Rightarrow> state \<Rightarrow> (response \<times> node list option) res" where
  "requestForm_settled env out s =
     (case out of
        Rejected e \<Rightarrow> Threw e s
      | Resolved response \<Rightarrow>
          if redirected response \<and> \<not> isInternalUrl env (url response)
          then Ok (response, None) (emit (Assign (url response)) s)
          else (case body response of
                  Inl e \<Rightarrow> Threw e s
                | Inr html \<Rightarrow> Ok (response, Some html) s))"

text \<open>
  \<^verbatim>\<open>viewTransition(() => this.replaceElements(html, this._targetSelector, target))\<close>:
  run now, or handed to the platform to run later.
\<close>

definition viewTransition :: "platform \<Rightarrow> node list \<Rightarrow> nat \<Rightarrow> state \<Rightarrow> unit res" where
  "viewTransition env html target s =
     (if \<not> startViewTransition env
      then (case replaceElements html (parse_selector env (this_targetSelector s)) (Some target) s of
              Threw e s' \<Rightarrow> Threw e s'
            | Ok _ s' \<Rightarrow> Ok () s')
      else Ok () (s\<lparr>transitions := transitions s @ [(html, target)]\<rparr>))"

text \<open>Running \<open>g\<close> after a call, unless the call threw.\<close>

definition and_then :: "unit res \<Rightarrow> (state \<Rightarrow> unit res) \<Rightarrow> unit res" where
  "and_then r g = (case r of Threw e s \<Rightarrow> Threw e s | Ok _ s \<Rightarrow> g s)"

definition state_of :: "'a res \<Rightarrow> state" where
  "state_of r = (case r of Ok _ s \<Rightarrow> s | Threw _ s \<Rightarrow> s)"

text \<open>
  \<^verbatim>\<open>handleInputValidation(event)\<close>, given \<^verbatim>\<open>event.target\<close>, up to the \<^verbatim>\<open>await\<close>. The
  result says which request the handler now waits for; \<open>None\<close> when it has returned.
  Inside the \<^verbatim>\<open>try\<close>, \<^verbatim>\<open>addHeader\<close> comes first and may throw.
\<close>

definition handleInputValidation_begin :: "node \<Rightarrow> state \<Rightarrow> state \<times> request option" where
  "handleInputValidation_begin target s =
     (if nvalue target = [] then (s, None)
      else
        (let s1 = (case get_controller (name_of target) s of
                     None \<Rightarrow> s
                   | Some c \<Rightarrow> abort (Because ''Aborted by user'') c s);
             s2 = set_controller (name_of target) s1;
             signal = get_controller (name_of target) s2
         in (case addHeader Validate (name_of target) of
               Inl error \<Rightarrow> (warn error s2, None)
             | Inr header \<Rightarrow>
                 (case requestForm_send header signal s2 of
                    Threw error s3 \<Rightarrow> (warn error s3, None)
                  | Ok r s3 \<Rightarrow> (s3, Some r)))))"

text \<open>
  The rest of \<^verbatim>\<open>handleInputValidation\<close>, once the request has settled with \<open>out\<close>;
  \<open>grp\<close> is the \<^verbatim>\<open>groupSelector\<close> computed before the \<^verbatim>\<open>await\<close>.
\<close>

definition handleInputValidation_settled :: "platform \<Rightarrow> selector \<Rightarrow> outcome \<Rightarrow> state \<Rightarrow> state" where
  "handleInputValidation_settled env grp out s =
     (case requestForm_settled env out s of
        Threw error s1 \<Rightarrow> warn error s1
      | Ok (response, html) s1 \<Rightarrow>
          (case html of
             None \<Rightarrow> s1
           | Some doc \<Rightarrow>
               (case replaceElements doc (Some grp) None s1 of
                  Threw error s2 \<Rightarrow> warn error s2
                | Ok newFormGroup s2 \<Rightarrow>
                    (case (case newFormGroup of
                             None \<Rightarrow> None
                           | Some g \<Rightarrow> first_match validate_selector (children g)) of
                       None \<Rightarrow> s2
                     | Some newValidateInput \<Rightarrow>
                         (case bindEvents (Some newValidateInput) s2 of
                            Threw error s3 \<Rightarrow> warn error s3
                          | Ok _ s3 \<Rightarrow> s3)))))"

text \<open>\<^verbatim>\<open>handleFormValidation(event)\<close> up to the \<^verbatim>\<open>await\<close>.\<close>

definition handleFormValidation_begin :: "state \<Rightarrow> state \<times> request option" where
  "handleFormValidation_begin s =
     (let s0 = emit PreventDefault s;
          s1 = fold (\<lambda>entry. abort DefaultAbort (snd entry)) (this_controllers s0) s0;
          s2 = set_controller ''form'' s1
      in (case addHeader Submit ''form'' of
            Inl error \<Rightarrow> (warn error s2, None)
          | Inr header \<Rightarrow>
              (case requestForm_send header (get_controller ''form'' s2) s2 of
                 Threw error s3 \<Rightarrow> (warn error s3, None)
               | Ok r s3 \<Rightarrow> (s3, Some r))))"

text \<open>The three status blocks of \<^verbatim>\<open>handleFormValidation\<close>, in the order of the source.\<close>

definition status_4xx :: "response \<Rightarrow> node list \<Rightarrow> state \<Rightarrow> unit res" where
  "status_4xx response html s =
     (if 400 \<le> status response \<and> status response \<le> 499
      then (case replaceElements html (Some form_selector) None s of
              Threw e s1 \<Rightarrow> Threw e s1
            | Ok newForm s1 \<Rightarrow> bindEvents None (s1\<lparr>this_form := map_option nid newForm\<rparr>))
      else Ok () s)"

definition status_5xx :: "platform \<Rightarrow> response \<Rightarrow> node list \<Rightarrow> state \<Rightarrow> unit res" where
  "status_5xx env response html s =
     (if 500 \<le> status response \<and> status response \<le> 599
      then (case replaceElements html (parse_selector env (this_failTargetSelector s))
                   (Some (self s)) s of
              Threw e s1 \<Rightarrow> Threw e s1
            | Ok _ s1 \<Rightarrow> Ok () s1)
      else Ok () s)"

definition status_200 :: "platform \<Rightarrow> response \<Rightarrow> node list \<Rightarrow> state \<Rightarrow> unit res" where
  "status_200 env response html s =
     (if status response = 200
      then (case this_closest (parse_selector env (this_targetSelector s)) s of
              Threw e s1 \<Rightarrow> Threw e s1
            | Ok ancestor s1 \<Rightarrow>
                viewTransition env html
                  (case ancestor of None \<Rightarrow> self s1 | Some a \<Rightarrow> nid a) s1)
      else Ok () s)"

text \<open>The rest of \<^verbatim>\<open>handleFormValidation\<close>, once the request has settled with \<open>out\<close>.\<close>

definition handleFormValidation_settled :: "platform \<Rightarrow> outcome \<Rightarrow> state \<Rightarrow> state" where
  "handleFormValidation_settled env out s =
     (case requestForm_settled env out s of
        Threw error s1 \<Rightarrow> warn error s1
      | Ok (response, html) s1 \<Rightarrow>
          (let s2 = (if getHeader response Redirect \<noteq> None then handleRedirect response s1
                     else s1)
           in (case html of
                 None \<Rightarrow> s2
               | Some doc \<Rightarrow>
                   (case and_then (and_then (status_4xx response doc s2)
                                            (status_5xx env response doc))
                                  (status_200 env response doc) of
                      Threw error s3 \<Rightarrow> warn error s3
                    | Ok _ s3 \<Rightarrow> s3))))"

text \<open>
  The submit listener of \<^verbatim>\<open>bindEvents\<close>:
  \<^verbatim>\<open>await this.handleFormValidation(event); this.focusFirstInvalidInput()\<close>.
\<close>

definition submit_listener_begin :: "state \<Rightarrow> unit res" where
  "submit_listener_begin s =
     (case handleFormValidation_begin s of
        (s1, Some r) \<Rightarrow> Ok () s1
      | (s1, None) \<Rightarrow> focusFirstInvalidInput s1)"

definition submit_listener_settled :: "platform \<Rightarrow> outcome \<Rightarrow> state \<Rightarrow> unit res" where
  "submit_listener_settled env out s =
     focusFirstInvalidInput (handleFormValidation_settled env out s)"

section \<open>The event loop\<close>

text \<open>
  How a request settles: with the abort reason when its signal is aborted, else with what
  the network gives.
\<close>

definition settle :: "state \<Rightarrow> request \<Rightarrow> outcome \<Rightarrow> outcome" where
  "settle s r out =
     (case req_signal r of
        None \<Rightarrow> out
      | Some c \<Rightarrow>
          if c < length (tokens s)
          then (case aborted (tokens s ! c) of
                  None \<Rightarrow> out
                | Some reason \<Rightarrow> Rejected (Aborted reason))
          else out)"

text \<open>The handler that waits for request \<open>r\<close> goes on.\<close>

definition deliver :: "platform \<Rightarrow> request \<Rightarrow> outcome \<Rightarrow> state \<Rightarrow> unit res" where
  "deliver env r out s =
     (let s1 = s\<lparr>inflight := remove1 r (inflight s)\<rparr>
      in if fst (req_header r) = Validate
         then Ok () (handleInputValidation_settled env (groupSelector (snd (req_header r)))
                       (settle s r out) s1)
         else submit_listener_settled env (settle s r out) s1)"

text \<open>The platform runs the oldest pending view-transition callback.\<close>

definition run_transition :: "platform \<Rightarrow> state \<Rightarrow> state" where
  "run_transition env s =
     (case transitions s of
        [] \<Rightarrow> s
      | (html, target) # rest \<Rightarrow>
          state_of (replaceElements html (parse_selector env (this_targetSelector s))
                      (Some target) (s\<lparr>transitions := rest\<rparr>)))"

text \<open>
  The states of a component: it is constructed and connected; then fields are blurred,
  the form is submitted, requests settle and transitions run, in any order.
\<close>

inductive reachable :: "platform \<Rightarrow> state \<Rightarrow> bool" for env :: platform where
  connected: "constructor doc i = Inr s0 \<Longrightarrow> reachable env (state_of (connectedCallback s0))"
| blurred: "reachable env s \<Longrightarrow> reachable env (fst (handleInputValidation_begin target s))"
| submitted: "reachable env s \<Longrightarrow> reachable env (state_of (submit_listener_begin s))"
| settled: "reachable env s \<Longrightarrow> r \<in> set (inflight s) \<Longrightarrow>
            reachable env (state_of (deliver env r out s))"
| transition: "reachable env s \<Longrightarrow> reachable env (run_transition env s)"

section \<open>Notions used in the statements\<close>

text \<open>The URLs handed to \<^verbatim>\<open>window.location.assign\<close>, in order.\<close>

definition navigations :: "state \<Rightarrow> string list" where
  "navigations s = concat (map (\<lambda>e. case e of Assign u \<Rightarrow> [u] | _ \<Rightarrow> []) (trace s))"

text \<open>What \<^verbatim>\<open>handleRedirect\<close> navigates to for a response.\<close>

definition header_navigation :: "response \<Rightarrow> string list" where
  "header_navigation response =
     (case getHeader response Redirect of
        None \<Rightarrow> []
      | Some u \<Rightarrow> if u = [] then [] else [u])"

text \<open>The same response without the header \<open>name\<close>.\<close>

definition without_header :: "string \<Rightarrow> response \<Rightarrow> response" where
  "without_header name response = response\<lparr>headers := AList.delete name (headers response)\<rparr>"

text \<open>The test of \<^verbatim>\<open>requestForm\<close>: the fetch was redirected to another origin.\<close>

definition external_redirect :: "platform \<Rightarrow> response \<Rightarrow> bool" where
  "external_redirect env response = (redirected response \<and> \<not> isInternalUrl env (url response))"

text \<open>
  The failure a settled request raises inside \<^verbatim>\<open>requestForm\<close>, if any: the rejection of
  \<^verbatim>\<open>fetch\<close> (network failure, or the abort reason of a cancelled request), or the
  failure of reading and parsing the body.
\<close>

definition failure :: "platform \<Rightarrow> outcome \<Rightarrow> exn option" where
  "failure env out =
     (case out of
        Rejected e \<Rightarrow> Some e
      | Resolved response \<Rightarrow>
          if external_redirect env response then None
          else (case body response of Inl e \<Rightarrow> Some e | Inr html \<Rightarrow> None))"

text \<open>The element \<^verbatim>\<open>this._form\<close> refers to.\<close>

definition form_node :: "state \<Rightarrow> node option" where
  "form_node s = (case this_form s of None \<Rightarrow> None | Some f \<Rightarrow> lookup s f)"

text \<open>The steps of the two handlers before the \<^verbatim>\<open>await\<close>, one by one.\<close>

definition supersede :: "string \<Rightarrow> state \<Rightarrow> state" where
  "supersede k s =
     (case get_controller k s of
        None \<Rightarrow> s
      | Some c \<Rightarrow> abort (Because ''Aborted by user'') c s)"

definition abort_all :: "state \<Rightarrow> state" where
  "abort_all s = fold (\<lambda>entry. abort DefaultAbort (snd entry)) (this_controllers s) s"

definition request_for :: "node \<Rightarrow> string \<times> string \<Rightarrow> nat option \<Rightarrow> request" where
  "request_for n h sig = \<lparr>req_url = action_of n, req_header = h, req_body = n, req_signal = sig\<rparr>"

definition send_or_warn :: "string \<times> string \<Rightarrow> nat option \<Rightarrow> state \<Rightarrow> state \<times> request option" where
  "send_or_warn h sig s =
     (case requestForm_send h sig s of
        Threw error s3 \<Rightarrow> (warn error s3, None)
      | Ok r s3 \<Rightarrow> (s3, Some r))"

text \<open>
  Two frames. \<open>quiet s s'\<close>: from \<open>s\<close> to \<open>s'\<close> only the document, the form reference,
  the listeners, the pending transitions and the focus may differ. \<open>calm s s'\<close>: the
  controllers are the same and no request was sent.
\<close>

definition quiet :: "state \<Rightarrow> state \<Rightarrow> bool" where
  "quiet s s' =
     (tokens s' = tokens s \<and> this_controllers s' = this_controllers s \<and> trace s' = trace s \<and>
      inflight s' = inflight s \<and> self s' = self s \<and>
      this_targetSelector s' = this_targetSelector s \<and>
      this_failTargetSelector s' = this_failTargetSelector s)"

definition calm :: "state \<Rightarrow> state \<Rightarrow> bool" where
  "calm s s' =
     (tokens s' = tokens s \<and> this_controllers s' = this_controllers s \<and>
      (\<forall>r. Fetch r \<in> set (trace s') \<longleftrightarrow> Fetch r \<in> set (trace s)))"

text \<open>
  The invariant of the controllers: a controller that is not aborted is the one
  registered under its key; and every request sent carries the signal of a controller
  that exists, and the value of its header is the key of that controller as
  \<^verbatim>\<open>headers.append\<close> stores it.
\<close>

definition tokens_registered :: "state \<Rightarrow> bool" where
  "tokens_registered s =
     (\<forall>i < length (tokens s).
        aborted (tokens s ! i) = None \<longrightarrow> get_controller (chan (tokens s ! i)) s = Some i)"

definition signals_known :: "state \<Rightarrow> bool" where
  "signals_known s =
     (\<forall>r. Fetch r \<in> set (trace s) \<longrightarrow>
        (\<exists>c. req_signal r = Some c \<and> c < length (tokens s) \<and>
             snd (req_header r) = normalize_value (chan (tokens s ! c))))"

text \<open>At most one controller per channel key is not aborted.\<close>

definition at_most_one_live :: "state \<Rightarrow> bool" where
  "at_most_one_live s =
     (\<forall>i < length (tokens s). \<forall>j < length (tokens s).
        chan (tokens s ! i) = chan (tokens s ! j) \<and>
        aborted (tokens s ! i) = None \<and> aborted (tokens s ! j) = None \<longrightarrow> i = j)"

section \<open>A page to run the component on\<close>

text \<open>
  The usage example of the README, with one field: the component holds the form, the
  two targets are its siblings.
\<close>

definition demo_env :: platform where
  "demo_env =
     \<lparr>css = (\<lambda>s. if s = ''#result'' then Some (SelAttrEq ''id'' ''result'')
                 else if s = ''#errors'' then Some (SelAttrEq ''id'' ''errors'')
                 else None),
      startViewTransition = False,
      location_origin = ''https://app.example'',
      url_origin = (\<lambda>u. if u = ''https://app.example/submit'' then Some ''https://app.example''
                          else None)\<rparr>"

definition demo_input :: node where
  "demo_input =
     Node 5 ''input'' [(''name'', ''email''), (''type'', ''email''), (''enhance-validate'', [])] [] []"

definition demo_form :: node where
  "demo_form = Node 3 ''form'' [(''action'', ''/submit'')] [] [Node 4 ''fieldset'' [] [] [demo_input]]"

definition demo_component :: node where
  "demo_component =
     Node 2 ''enhance-form'' [(''target'', ''#result''), (''fail-target'', ''#errors'')] [] [demo_form]"

definition demo_page :: "node list" where
  "demo_page =
     [Node 1 ''main'' [] []
        [demo_component,
         Node 6 ''div'' [(''id'', ''result'')] [] [],
         Node 7 ''div'' [(''id'', ''errors'')] [] []]]"

text \<open>The component after the constructor and \<^verbatim>\<open>connectedCallback\<close>.\<close>

definition demo_connected :: state where
  "demo_connected =
     \<lparr>page = demo_page, limbo = [], self = 2, this_form = Some 3,
      this_targetSelector = ''#result'', this_failTargetSelector = ''#errors'',
      this_controllers = [], tokens = [], listeners = [(3, OnSubmit), (5, OnBlur)],
      inflight = [], transitions = [], focused = None, selection = None, trace = []\<rparr>"

text \<open>The same component after the form has been submitted once.\<close>

definition submit_request :: request where
  "submit_request = request_for demo_form (Submit, ''form'') (Some 0)"

definition demo_submitted :: state where
  "demo_submitted =
     demo_connected\<lparr>this_controllers := [(''form'', 0)],
                    tokens := [\<lparr>chan = ''form'', aborted = None\<rparr>],
                    inflight := [submit_request],
                    trace := [PreventDefault, Fetch submit_request]\<rparr>"

text \<open>
  The field with a value typed in, and the component after that field has been blurred
  once.
\<close>

definition typed_input :: node where
  "typed_input =
     Node 5 ''input'' [(''name'', ''email''), (''type'', ''email''), (''enhance-validate'', [])]
       ''a@b'' []"

definition blur_request :: request where
  "blur_request = request_for demo_form (Validate, ''email'') (Some 0)"

definition demo_blurred :: state where
  "demo_blurred =
     demo_connected\<lparr>this_controllers := [(''email'', 0)],
                    tokens := [\<lparr>chan = ''email'', aborted = None\<rparr>],
                    inflight := [blur_request],
                    trace := [Fetch blur_request]\<rparr>"

text \<open>
  A page of the server with the form sent back, its field marked invalid; and a response
  with status 422 that carries it, with the redirect header present but empty.
\<close>

definition invalid_input :: node where
  "invalid_input =
     Node 14 ''input''
       [(''name'', ''email''), (''type'', ''text''), (''aria-invalid'', ''true''),
        (''enhance-validate'', [])]
       ''abc'' []"

definition invalid_form :: node where
  "invalid_form =
     Node 12 ''form'' [(''action'', ''/submit'')] [] [Node 13 ''fieldset'' [] [] [invalid_input]]"

definition invalid_doc :: "node list" where
  "invalid_doc = [Node 10 ''html'' [] [] [Node 11 ''body'' [] [] [invalid_form]]]"

definition empty_redirect_422 :: response where
  "empty_redirect_422 =
     \<lparr>status = 422, headers = [(Redirect, [])], redirected = False,
      url = ''https://app.example/submit'', body = Inr invalid_doc\<rparr>"

text \<open>
  The same response with a URL in the redirect header; that one again, with a body that
  cannot be read; and the first without the header.
\<close>

definition redirect_422 :: response where
  "redirect_422 = empty_redirect_422\<lparr>headers := [(Redirect, ''/thanks'')]\<rparr>"

definition unread_redirect_422 :: response where
  "unread_redirect_422 = redirect_422\<lparr>body := Inl NetworkError\<rparr>"

definition invalid_422 :: response where
  "invalid_422 = empty_redirect_422\<lparr>headers := []\<rparr>"

text \<open>
  An error page of the server: it holds an element for the fail target and no form. A
  response with status 500 carries it, and one with status 404.
\<close>

definition new_errors :: node where
  "new_errors = Node 22 ''div'' [(''id'', ''errors'')] [] [Node 23 ''p'' [] [] []]"

definition errors_doc :: "node list" where
  "errors_doc = [Node 20 ''html'' [] [] [Node 21 ''body'' [] [] [new_errors]]]"

definition error_500 :: response where
  "error_500 =
     \<lparr>status = 500, headers = [], redirected = False,
      url = ''https://app.example/submit'', body = Inr errors_doc\<rparr>"

definition not_found_404 :: response where
  "not_found_404 = error_500\<lparr>status := 404\<rparr>"

section \<open>Lemmas\<close>

subsection \<open>Operations that leave controllers, requests and log alone\<close>

lemma state_of_simps [simp]: "state_of (Ok v s) = s" "state_of (Threw e s) = s"
  by (simp_all add: state_of_def)

lemma and_then_simps [simp]: "and_then (Ok u s) g = g s" "and_then (Threw e s) g = Threw e s"
  by (simp_all add: and_then_def)

lemma quiet_refl [simp]: "quiet s s"
  by (simp add: quiet_def)

lemma quiet_trans: "quiet s s1 \<Longrightarrow> quiet s1 s2 \<Longrightarrow> quiet s s2"
  by (simp add: quiet_def)

lemma quiet_replaceWith [simp]: "quiet s (replaceWith c n s)"
  by (simp add: quiet_def replaceWith_def split: option.splits)

lemma quiet_replaceElements [simp]: "quiet s (state_of (replaceElements html sel root s))"
  by (simp add: replaceElements_def state_of_def Let_def split: option.splits)

lemma fold_addEventListener:
  "fold (\<lambda>input. addEventListener (nid input) OnBlur) xs s =
     s\<lparr>listeners := listeners s @ map (\<lambda>input. (nid input, OnBlur)) xs\<rparr>"
  by (induction xs arbitrary: s) (simp_all add: addEventListener_def)

lemma quiet_bindEvents [simp]: "quiet s (state_of (bindEvents t s))"
  by (simp add: bindEvents_def state_of_def Let_def fold_addEventListener addEventListener_def quiet_def
      split: option.splits)

lemma quiet_form_update [simp]: "quiet s (s'\<lparr>this_form := f\<rparr>) = quiet s s'"
  by (simp add: quiet_def)

lemma quiet_status_4xx [simp]: "quiet s (state_of (status_4xx response html s))"
proof (cases "replaceElements html (Some form_selector) None s")
  case (Ok v s1)
  then have "quiet s s1"
    using quiet_replaceElements [of s html "Some form_selector" None] by (simp add: state_of_def)
  moreover have "quiet (s1\<lparr>this_form := map_option nid v\<rparr>)
                   (state_of (bindEvents None (s1\<lparr>this_form := map_option nid v\<rparr>)))"
    by simp
  ultimately show ?thesis
    using Ok by (auto simp: status_4xx_def state_of_def quiet_def)
next
  case (Threw e s1)
  then have "quiet s s1"
    using quiet_replaceElements [of s html "Some form_selector" None] by (simp add: state_of_def)
  then show ?thesis
    using Threw by (simp add: status_4xx_def state_of_def)
qed

lemma quiet_status_5xx [simp]: "quiet s (state_of (status_5xx env response html s))"
  using quiet_replaceElements [of s html "parse_selector env (this_failTargetSelector s)" "Some (self s)"]
  by (simp add: status_5xx_def state_of_def split: res.splits)

lemma quiet_viewTransition [simp]: "quiet s (state_of (viewTransition env html t s))"
  using quiet_replaceElements [of s html "parse_selector env (this_targetSelector s)" "Some t"]
  by (simp add: viewTransition_def state_of_def quiet_def split: res.splits)

lemma quiet_status_200 [simp]: "quiet s (state_of (status_200 env response html s))"
  by (simp add: status_200_def this_closest_def split: option.splits)

lemma quiet_and_then:
  "quiet s (state_of r) \<Longrightarrow> (\<And>s1. quiet s1 (state_of (g s1))) \<Longrightarrow> quiet s (state_of (and_then r g))"
proof (cases r)
  case (Ok u s1)
  assume a: "quiet s (state_of r)" and b: "\<And>s1. quiet s1 (state_of (g s1))"
  from a Ok have "quiet s s1" by simp
  then have "quiet s (state_of (g s1))" using b [of s1] by (rule quiet_trans)
  with Ok show ?thesis by simp
next
  case (Threw e s1)
  assume a: "quiet s (state_of r)"
  with Threw show ?thesis by simp
qed

lemma quiet_status_blocks:
  "quiet s (state_of (and_then (and_then (status_4xx response doc s) (status_5xx env response doc))
                         (status_200 env response doc)))"
  by (intro quiet_and_then) simp_all

lemma quiet_focusFirstInvalidInput [simp]: "quiet s (state_of (focusFirstInvalidInput s))"
  by (simp add: focusFirstInvalidInput_def state_of_def quiet_def Let_def split: option.splits)

subsection \<open>Navigation\<close>

text \<open>
  The navigations of a submission: that of \<^verbatim>\<open>requestForm\<close>, then that of
  \<^verbatim>\<open>handleRedirect\<close>; the status blocks add none.
\<close>

lemma navigations_quiet: "quiet s s' \<Longrightarrow> navigations s' = navigations s"
  by (simp add: quiet_def navigations_def)

lemma navigations_warn [simp]: "navigations (warn e s) = navigations s"
  by (simp add: navigations_def warn_def emit_def)

lemma navigations_Assign [simp]: "navigations (emit (Assign u) s) = navigations s @ [u]"
  by (simp add: navigations_def emit_def)

lemma navigations_handleRedirect [simp]:
  "navigations (handleRedirect response s) = navigations s @ header_navigation response"
  by (simp add: handleRedirect_def header_navigation_def getHeader_def split: option.splits)

lemma navigations_caught:
  "quiet s (state_of r) \<Longrightarrow>
   navigations (case r of Threw error s3 \<Rightarrow> warn error s3 | Ok _ s3 \<Rightarrow> s3) = navigations s"
  by (cases r) (simp_all add: navigations_quiet)

lemma requestForm_settled_Resolved:
  "requestForm_settled env (Resolved response) s =
     (if external_redirect env response
      then Ok (response, None) (emit (Assign (url response)) s)
      else (case body response of
              Inl e \<Rightarrow> Threw e s
            | Inr html \<Rightarrow> Ok (response, Some html) s))"
  by (simp add: requestForm_settled_def external_redirect_def)

lemma navigations_settled:
  "navigations (handleFormValidation_settled env (Resolved response) s) =
     navigations s @ (if external_redirect env response then [url response] else [])
       @ (if external_redirect env response \<or> \<not> isl (body response)
          then header_navigation response else [])"
proof (cases "external_redirect env response")
  case True
  then show ?thesis
    by (simp add: handleFormValidation_settled_def requestForm_settled_Resolved
        header_navigation_def getHeader_def split: option.splits)
next
  case False
  show ?thesis
  proof (cases "body response")
    case (Inl e)
    with False show ?thesis
      by (simp add: handleFormValidation_settled_def requestForm_settled_Resolved)
  next
    case (Inr doc)
    have "navigations (case and_then (and_then (status_4xx response doc s2) (status_5xx env response doc))
                                  (status_200 env response doc) of
                      Threw error s3 \<Rightarrow> warn error s3
                    | Ok _ s3 \<Rightarrow> s3) = navigations s2" for s2
      by (rule navigations_caught) (rule quiet_status_blocks)
    with False Inr show ?thesis
      by (simp add: handleFormValidation_settled_def requestForm_settled_Resolved
          header_navigation_def getHeader_def Let_def split: option.splits)
  qed
qed

lemma status_blocks_header:
  "status_4xx (response\<lparr>headers := h\<rparr>) = status_4xx response"
  "status_5xx env (response\<lparr>headers := h\<rparr>) = status_5xx env response"
  "status_200 env (response\<lparr>headers := h\<rparr>) = status_200 env response"
  by (simp_all add: status_4xx_def status_5xx_def status_200_def fun_eq_iff)

subsection \<open>The example page\<close>

lemmas dom_simps = first_match_def lookup_def lookup_in_def getAttribute_def this_querySelector_def
  form_selector_def validate_selector_def invalid_selector_def groupSelector_def or_else_def

lemma demo_constructed:
  "\<exists>s. constructor demo_page 2 = Inr s \<and> state_of (connectedCallback s) = demo_connected"
  by (simp add: constructor_def connectedCallback_def bindEvents_def demo_page_def demo_form_def
      demo_component_def demo_input_def
      demo_connected_def dom_simps addEventListener_def Let_def)

lemma normalize_form [simp]: "normalize_value ''form'' = ''form''"
  by (simp add: normalize_value_def http_whitespace_def)

lemma addHeader_form [simp]: "addHeader name ''form'' = Inr (name, ''form'')"
  by (simp add: addHeader_def valid_header_value_def)

lemma demo_submitted_eq: "submit_listener_begin demo_connected = Ok () demo_submitted"
  by (simp add: submit_listener_begin_def handleFormValidation_begin_def requestForm_send_def
      set_controller_def get_controller_def emit_def action_of_def
      demo_connected_def demo_submitted_def submit_request_def request_for_def demo_page_def
      demo_component_def demo_form_def demo_input_def dom_simps Let_def)

lemma demo_blurred_eq:
  "handleInputValidation_begin typed_input demo_connected = (demo_blurred, Some blur_request)"
  by (simp add: handleInputValidation_begin_def requestForm_send_def set_controller_def
      get_controller_def emit_def addHeader_def normalize_value_def valid_header_value_def
      http_whitespace_def action_of_def name_of_def typed_input_def
      demo_connected_def demo_blurred_def blur_request_def request_for_def demo_page_def
      demo_component_def demo_form_def demo_input_def dom_simps Let_def)

lemma demo_reachable:
  "reachable env demo_connected" "reachable env demo_submitted" "reachable env demo_blurred"
proof -
  show c: "reachable env demo_connected"
    using demo_constructed reachable.connected [of _ _ _ env] by metis
  show "reachable env demo_submitted"
    using reachable.submitted [OF c] by (simp add: demo_submitted_eq)
  show "reachable env demo_blurred"
    using reachable.blurred [OF c, of typed_input] by (simp add: demo_blurred_eq)
qed

subsection \<open>Aborting and registering controllers\<close>

lemma abort_fields [simp]:
  "this_controllers (abort r c s) = this_controllers s"
  "length (tokens (abort r c s)) = length (tokens s)"
  "trace (abort r c s) = trace s @ [Abort c r]"
  "this_form (abort r c s) = this_form s"
  "page (abort r c s) = page s"
  "limbo (abort r c s) = limbo s"
  "inflight (abort r c s) = inflight s"
  "self (abort r c s) = self s"
  by (simp_all add: abort_def emit_def)

lemma abort_chan [simp]: "i < length (tokens s) \<Longrightarrow> chan (tokens (abort r c s) ! i) = chan (tokens s ! i)"
  by (simp add: abort_def emit_def nth_list_update)

lemma abort_aborted:
  "i < length (tokens s) \<Longrightarrow>
   aborted (tokens (abort r c s) ! i) =
     (if i = c \<and> aborted (tokens s ! i) = None then Some r else aborted (tokens s ! i))"
  by (auto simp: abort_def emit_def nth_list_update)

lemma fold_abort_fields [simp]:
  "this_controllers (fold (\<lambda>entry. abort r (snd entry)) m s) = this_controllers s"
  "length (tokens (fold (\<lambda>entry. abort r (snd entry)) m s)) = length (tokens s)"
  "trace (fold (\<lambda>entry. abort r (snd entry)) m s) = trace s @ map (\<lambda>entry. Abort (snd entry) r) m"
  "this_form (fold (\<lambda>entry. abort r (snd entry)) m s) = this_form s"
  "page (fold (\<lambda>entry. abort r (snd entry)) m s) = page s"
  "limbo (fold (\<lambda>entry. abort r (snd entry)) m s) = limbo s"
  "inflight (fold (\<lambda>entry. abort r (snd entry)) m s) = inflight s"
  "self (fold (\<lambda>entry. abort r (snd entry)) m s) = self s"
  by (induction m arbitrary: s) simp_all

lemma fold_abort_chan [simp]:
  "i < length (tokens s) \<Longrightarrow>
   chan (tokens (fold (\<lambda>entry. abort r (snd entry)) m s) ! i) = chan (tokens s ! i)"
  by (induction m arbitrary: s) simp_all

lemma fold_abort_aborted:
  "i < length (tokens s) \<Longrightarrow>
   aborted (tokens (fold (\<lambda>entry. abort r (snd entry)) m s) ! i) =
     (if i \<in> snd ` set m \<and> aborted (tokens s ! i) = None then Some r else aborted (tokens s ! i))"
proof (induction m arbitrary: s)
  case Nil
  then show ?case by simp
next
  case (Cons e m)
  then show ?case
    by (auto simp: abort_aborted)
qed

lemma tokens_registered_one_live: "tokens_registered s \<Longrightarrow> at_most_one_live s"
  unfolding tokens_registered_def at_most_one_live_def
  by (metis option.inject)

lemma set_controller_fields [simp]:
  "tokens (set_controller k s) = tokens s @ [\<lparr>chan = k, aborted = None\<rparr>]"
  "get_controller k' (set_controller k s) = (if k' = k then Some (length (tokens s)) else get_controller k' s)"
  "trace (set_controller k s) = trace s"
  "this_form (set_controller k s) = this_form s"
  "page (set_controller k s) = page s"
  "limbo (set_controller k s) = limbo s"
  "inflight (set_controller k s) = inflight s"
  "self (set_controller k s) = self s"
  by (simp_all add: set_controller_def get_controller_def update_conv')

subsection \<open>What happens after the request settles leaves the controllers alone\<close>

lemma calm_refl [simp]: "calm s s"
  by (simp add: calm_def)

lemma calm_trans: "calm s s1 \<Longrightarrow> calm s1 s2 \<Longrightarrow> calm s s2"
  by (simp add: calm_def)

lemma quiet_calm: "quiet s s' \<Longrightarrow> calm s s'"
  by (simp add: quiet_def calm_def)

lemma calm_warn [simp]: "calm s (warn e s') = calm s s'"
  by (simp add: calm_def warn_def emit_def)

lemma calm_Assign [simp]: "calm s (emit (Assign u) s') = calm s s'"
  by (simp add: calm_def emit_def)

lemma calm_handleRedirect [simp]: "calm s (handleRedirect response s') = calm s s'"
  by (simp add: handleRedirect_def split: option.splits)

lemma calm_caught:
  "quiet s (state_of r) \<Longrightarrow> calm s (case r of Threw error s3 \<Rightarrow> warn error s3 | Ok _ s3 \<Rightarrow> s3)"
  by (cases r) (simp_all add: quiet_calm)

lemma calm_requestForm_settled [simp]: "calm s (state_of (requestForm_settled env out s))"
  by (simp add: requestForm_settled_def split: outcome.splits sum.splits)

lemma calm_handleFormValidation_settled [simp]:
  "calm s (handleFormValidation_settled env out s)"
proof (cases "requestForm_settled env out s")
  case (Threw e s1)
  with calm_requestForm_settled [of s env out] show ?thesis
    by (simp add: handleFormValidation_settled_def)
next
  case (Ok v s1)
  obtain response html where v: "v = (response, html)" by (cases v)
  from Ok calm_requestForm_settled [of s env out] have c1: "calm s s1" by simp
  define s2 where "s2 = (if getHeader response Redirect \<noteq> None
                         then handleRedirect response s1 else s1)"
  have c2: "calm s s2" using c1 by (simp add: s2_def)
  show ?thesis
  proof (cases html)
    case None
    with Ok v c2 show ?thesis
      by (simp add: handleFormValidation_settled_def s2_def)
  next
    case (Some doc)
    have "calm s2 (case and_then (and_then (status_4xx response doc s2) (status_5xx env response doc))
                                  (status_200 env response doc) of
                      Threw error s3 \<Rightarrow> warn error s3
                    | Ok _ s3 \<Rightarrow> s3)"
      by (rule calm_caught) (rule quiet_status_blocks)
    with c2 have "calm s (case and_then (and_then (status_4xx response doc s2) (status_5xx env response doc))
                                  (status_200 env response doc) of
                      Threw error s3 \<Rightarrow> warn error s3
                    | Ok _ s3 \<Rightarrow> s3)"
      by (rule calm_trans)
    with Ok v Some show ?thesis
      by (simp add: handleFormValidation_settled_def s2_def)
  qed
qed

lemma calm_handleInputValidation_settled [simp]:
  "calm s (handleInputValidation_settled env grp out s)"
proof (cases "requestForm_settled env out s")
  case (Threw e s1)
  with calm_requestForm_settled [of s env out] show ?thesis
    by (simp add: handleInputValidation_settled_def)
next
  case (Ok v s1)
  obtain response html where v: "v = (response, html)" by (cases v)
  from Ok calm_requestForm_settled [of s env out] have c1: "calm s s1" by simp
  show ?thesis
  proof (cases html)
    case None
    with Ok v c1 show ?thesis
      by (simp add: handleInputValidation_settled_def)
  next
    case (Some doc)
    have q: "quiet s1 (state_of (replaceElements doc (Some grp) None s1))" by simp
    show ?thesis
    proof (cases "replaceElements doc (Some grp) None s1")
      case (Threw e s2)
      with q have "calm s1 s2" by (simp add: quiet_calm)
      with c1 have "calm s s2" by (rule calm_trans)
      with Ok v Some Threw show ?thesis
        by (simp add: handleInputValidation_settled_def)
    next
      case Ok2: (Ok g s2)
      with q have "calm s1 s2" by (simp add: quiet_calm)
      with c1 have c2: "calm s s2" by (rule calm_trans)
      have "calm s2 (case bindEvents t s2 of Threw error s3 \<Rightarrow> warn error s3 | Ok _ s3 \<Rightarrow> s3)" for t
        by (rule calm_caught) simp
      with c2 have "calm s (case bindEvents t s2 of Threw error s3 \<Rightarrow> warn error s3 | Ok _ s3 \<Rightarrow> s3)" for t
        by (rule calm_trans)
      with Ok v Some Ok2 c2 show ?thesis
        by (simp add: handleInputValidation_settled_def split: option.splits)
    qed
  qed
qed

lemma calm_focus [simp]: "calm s (state_of (focusFirstInvalidInput s))"
  by (simp add: quiet_calm)

lemma calm_inflight [simp]: "calm (s\<lparr>inflight := x\<rparr>) s' = calm s s'"
  by (simp add: calm_def)

lemma calm_deliver: "calm s (state_of (deliver env r out s))"
proof -
  let ?s1 = "s\<lparr>inflight := remove1 r (inflight s)\<rparr>"
  have a: "calm s (handleInputValidation_settled env grp o' ?s1)" for grp o'
    using calm_handleInputValidation_settled [of ?s1 env grp o'] by (simp only: calm_inflight)
  have b: "calm s (handleFormValidation_settled env o' ?s1)" for o'
    using calm_handleFormValidation_settled [of ?s1 env o'] by (simp only: calm_inflight)
  have c: "calm s (state_of (submit_listener_settled env o' ?s1))" for o'
    unfolding submit_listener_settled_def
    using b [of o'] calm_focus calm_trans by blast
  show ?thesis
    using a c by (simp add: deliver_def Let_def)
qed

lemma calm_run_transition: "calm s (run_transition env s)"
proof (cases "transitions s")
  case Nil
  then show ?thesis by (simp add: run_transition_def)
next
  case (Cons p rest)
  obtain html t where p: "p = (html, t)" by (cases p)
  let ?s1 = "s\<lparr>transitions := rest\<rparr>"
  have "quiet ?s1 (state_of (replaceElements html (parse_selector env (this_targetSelector s)) (Some t) ?s1))"
    by simp
  then have "calm ?s1 (state_of (replaceElements html (parse_selector env (this_targetSelector s)) (Some t) ?s1))"
    by (rule quiet_calm)
  then show ?thesis
    using Cons p by (simp add: run_transition_def calm_def)
qed

subsection \<open>The invariant of the controllers\<close>

lemma tokens_registered_calm: "calm s s' \<Longrightarrow> tokens_registered s \<Longrightarrow> tokens_registered s'"
  by (simp add: calm_def tokens_registered_def get_controller_def)

lemma signals_known_calm: "calm s s' \<Longrightarrow> signals_known s \<Longrightarrow> signals_known s'"
  by (simp add: calm_def signals_known_def)

lemma tokens_registered_set:
  assumes "\<And>i. i < length (tokens s1) \<Longrightarrow> aborted (tokens s1 ! i) = None \<Longrightarrow>
             chan (tokens s1 ! i) \<noteq> k \<and> get_controller (chan (tokens s1 ! i)) s1 = Some i"
  shows "tokens_registered (set_controller k s1)"
  unfolding tokens_registered_def
proof (intro allI impI)
  fix i
  assume i: "i < length (tokens (set_controller k s1))"
    and l: "aborted (tokens (set_controller k s1) ! i) = None"
  show "get_controller (chan (tokens (set_controller k s1) ! i)) (set_controller k s1) = Some i"
  proof (cases "i < length (tokens s1)")
    case True
    with l assms [of i] show ?thesis by (simp add: nth_append)
  next
    case False
    with i have "i = length (tokens s1)" by simp
    then show ?thesis by simp
  qed
qed

lemma supersede_fields [simp]:
  "this_controllers (supersede k s) = this_controllers s"
  "length (tokens (supersede k s)) = length (tokens s)"
  "this_form (supersede k s) = this_form s"
  "page (supersede k s) = page s"
  "limbo (supersede k s) = limbo s"
  "inflight (supersede k s) = inflight s"
  "get_controller k' (supersede k s) = get_controller k' s"
  by (simp_all add: supersede_def get_controller_def split: option.splits)

lemma supersede_chan [simp]:
  "i < length (tokens s) \<Longrightarrow> chan (tokens (supersede k s) ! i) = chan (tokens s ! i)"
  by (simp add: supersede_def split: option.splits)

lemma supersede_aborted:
  "i < length (tokens s) \<Longrightarrow>
   aborted (tokens (supersede k s) ! i) =
     (if get_controller k s = Some i \<and> aborted (tokens s ! i) = None
      then Some (Because ''Aborted by user'') else aborted (tokens s ! i))"
  by (auto simp: supersede_def abort_aborted split: option.splits)

lemma supersede_trace:
  "trace (supersede k s) =
     trace s @ (case get_controller k s of None \<Rightarrow> [] | Some c \<Rightarrow> [Abort c (Because ''Aborted by user'')])"
  by (simp add: supersede_def split: option.splits)

lemma tokens_registered_supersede:
  assumes "tokens_registered s"
  shows "tokens_registered (set_controller k (supersede k s))"
proof (rule tokens_registered_set)
  fix i
  assume i: "i < length (tokens (supersede k s))"
    and l: "aborted (tokens (supersede k s) ! i) = None"
  from i have i': "i < length (tokens s)" by simp
  from l i' have a: "aborted (tokens s ! i) = None" and b: "get_controller k s \<noteq> Some i"
    by (auto simp: supersede_aborted split: if_splits)
  from assms i' a have "get_controller (chan (tokens s ! i)) s = Some i"
    by (simp add: tokens_registered_def)
  with b i' show "chan (tokens (supersede k s) ! i) \<noteq> k \<and>
        get_controller (chan (tokens (supersede k s) ! i)) (supersede k s) = Some i"
    by auto
qed

lemma abort_all_none_live:
  assumes "tokens_registered s" "i < length (tokens s)"
  shows "aborted (tokens (abort_all s) ! i) \<noteq> None"
proof (cases "aborted (tokens s ! i)")
  case None
  with assms have "map_of (this_controllers s) (chan (tokens s ! i)) = Some i"
    by (simp add: tokens_registered_def get_controller_def)
  then have "i \<in> snd ` set (this_controllers s)"
    by (metis map_of_SomeD snd_conv image_eqI)
  with None assms(2) show ?thesis
    by (simp add: abort_all_def fold_abort_aborted)
next
  case (Some r)
  with assms(2) show ?thesis
    by (simp add: abort_all_def fold_abort_aborted)
qed

lemma tokens_registered_abort_all:
  assumes "tokens_registered s"
  shows "tokens_registered (set_controller k (abort_all s))"
proof (rule tokens_registered_set)
  fix i
  assume "i < length (tokens (abort_all s))" and l: "aborted (tokens (abort_all s) ! i) = None"
  then have "i < length (tokens s)" by (simp add: abort_all_def)
  with assms l abort_all_none_live show "chan (tokens (abort_all s) ! i) \<noteq> k \<and>
        get_controller (chan (tokens (abort_all s) ! i)) (abort_all s) = Some i"
    by blast
qed

lemma handleInputValidation_begin_eq:
  "nvalue target \<noteq> [] \<Longrightarrow>
   handleInputValidation_begin target s =
     (if valid_header_value (normalize_value (name_of target))
      then (case requestForm_send (Validate, normalize_value (name_of target))
                   (Some (length (tokens s)))
                   (set_controller (name_of target) (supersede (name_of target) s)) of
              Threw error s3 \<Rightarrow> (warn error s3, None)
            | Ok r s3 \<Rightarrow> (s3, Some r))
      else (warn TypeError (set_controller (name_of target) (supersede (name_of target) s)),
            None))"
  by (simp add: handleInputValidation_begin_def supersede_def [symmetric] Let_def addHeader_def)

lemma handleFormValidation_begin_eq:
  "handleFormValidation_begin s =
     (case requestForm_send (Submit, ''form'') (Some (length (tokens s)))
             (set_controller ''form'' (abort_all (emit PreventDefault s))) of
        Threw error s3 \<Rightarrow> (warn error s3, None)
      | Ok r s3 \<Rightarrow> (s3, Some r))"
  by (simp add: handleFormValidation_begin_def abort_all_def Let_def emit_def)

lemma send_or_warn_eq:
  "send_or_warn h sig s =
     (case form_node s of
        None \<Rightarrow> (s\<lparr>trace := trace s @ [Warn TypeError]\<rparr>, None)
      | Some n \<Rightarrow> (s\<lparr>inflight := inflight s @ [request_for n h sig],
                      trace := trace s @ [Fetch (request_for n h sig)]\<rparr>,
                   Some (request_for n h sig)))"
  by (simp add: send_or_warn_def requestForm_send_def form_node_def request_for_def warn_def
      emit_def Let_def split: option.splits)

lemma send_or_warn_tokens [simp]:
  "tokens (fst (send_or_warn h sig s)) = tokens s"
  "this_controllers (fst (send_or_warn h sig s)) = this_controllers s"
  "this_form (fst (send_or_warn h sig s)) = this_form s"
  "page (fst (send_or_warn h sig s)) = page s"
  "limbo (fst (send_or_warn h sig s)) = limbo s"
  by (simp_all add: send_or_warn_eq split: option.splits)

lemma send_or_warn_fetches:
  "Fetch r \<in> set (trace (fst (send_or_warn h sig s))) \<Longrightarrow>
     Fetch r \<in> set (trace s) \<or> req_signal r = sig \<and> req_header r = h"
  by (auto simp: send_or_warn_eq request_for_def split: option.splits)

lemma tokens_registered_send [simp]:
  "tokens_registered (fst (send_or_warn h sig s)) = tokens_registered s"
  by (simp add: tokens_registered_def get_controller_def)

lemma signals_known_warn:
  assumes "\<And>r. Fetch r \<in> set (trace s) \<Longrightarrow>
             \<exists>c. req_signal r = Some c \<and> c < length (tokens s) \<and>
                 snd (req_header r) = normalize_value (chan (tokens s ! c))"
  shows "signals_known (warn e s)"
  using assms by (simp add: signals_known_def warn_def emit_def)

lemma signals_known_send:
  assumes "\<And>r. Fetch r \<in> set (trace s) \<Longrightarrow>
             \<exists>c. req_signal r = Some c \<and> c < length (tokens s) \<and>
                 snd (req_header r) = normalize_value (chan (tokens s ! c))"
    and "c < length (tokens s)" and "snd h = normalize_value (chan (tokens s ! c))"
  shows "signals_known (fst (send_or_warn h (Some c) s))"
  unfolding signals_known_def
proof (intro allI impI)
  fix r
  assume "Fetch r \<in> set (trace (fst (send_or_warn h (Some c) s)))"
  then consider "Fetch r \<in> set (trace s)" | "req_signal r = Some c" "req_header r = h"
    using send_or_warn_fetches by blast
  then show "\<exists>c'. req_signal r = Some c' \<and> c' < length (tokens (fst (send_or_warn h (Some c) s))) \<and>
          snd (req_header r) =
            normalize_value (chan (tokens (fst (send_or_warn h (Some c) s)) ! c'))"
  proof cases
    case 1
    with assms(1) show ?thesis by simp
  next
    case 2
    with assms(2,3) show ?thesis by simp
  qed
qed

lemma abort_all_chan [simp]:
  "i < length (tokens s) \<Longrightarrow> chan (tokens (abort_all s) ! i) = chan (tokens s ! i)"
  by (simp add: abort_all_def)

lemma handleInputValidation_begin_send:
  "nvalue target \<noteq> [] \<Longrightarrow>
   handleInputValidation_begin target s =
     (if valid_header_value (normalize_value (name_of target))
      then send_or_warn (Validate, normalize_value (name_of target)) (Some (length (tokens s)))
             (set_controller (name_of target) (supersede (name_of target) s))
      else (warn TypeError (set_controller (name_of target) (supersede (name_of target) s)),
            None))"
  by (simp add: handleInputValidation_begin_eq send_or_warn_def)

lemma handleFormValidation_begin_send:
  "handleFormValidation_begin s =
     send_or_warn (Submit, ''form'') (Some (length (tokens s)))
       (set_controller ''form'' (abort_all (emit PreventDefault s)))"
  by (simp add: handleFormValidation_begin_eq send_or_warn_def)

lemma emit_fields [simp]:
  "tokens (emit e s) = tokens s"
  "this_controllers (emit e s) = this_controllers s"
  "trace (emit e s) = trace s @ [e]"
  "this_form (emit e s) = this_form s"
  "page (emit e s) = page s"
  "limbo (emit e s) = limbo s"
  "inflight (emit e s) = inflight s"
  by (simp_all add: emit_def)

lemma abort_all_fields [simp]:
  "this_controllers (abort_all s) = this_controllers s"
  "length (tokens (abort_all s)) = length (tokens s)"
  "trace (abort_all s) = trace s @ map (\<lambda>entry. Abort (snd entry) DefaultAbort) (this_controllers s)"
  "this_form (abort_all s) = this_form s"
  "page (abort_all s) = page s"
  "limbo (abort_all s) = limbo s"
  "inflight (abort_all s) = inflight s"
  by (simp_all add: abort_all_def)

lemma tokens_registered_emit [simp]: "tokens_registered (emit e s) = tokens_registered s"
  by (simp add: tokens_registered_def get_controller_def)

lemma tokens_registered_warn [simp]: "tokens_registered (warn e s) = tokens_registered s"
  by (simp add: warn_def)

lemma blur_preserves:
  assumes "tokens_registered s" "signals_known s"
  shows "tokens_registered (fst (handleInputValidation_begin target s)) \<and>
         signals_known (fst (handleInputValidation_begin target s))"
proof (cases "nvalue target = []")
  case True
  with assms show ?thesis by (simp add: handleInputValidation_begin_def)
next
  case False
  let ?k = "name_of target"
  let ?s2 = "set_controller ?k (supersede ?k s)"
  have reg: "tokens_registered ?s2"
    using assms(1) by (rule tokens_registered_supersede)
  have old: "\<exists>c. req_signal r = Some c \<and> c < length (tokens ?s2) \<and>
                 snd (req_header r) = normalize_value (chan (tokens ?s2 ! c))"
    if "Fetch r \<in> set (trace ?s2)" for r
  proof -
    from that have "Fetch r \<in> set (trace s)"
      by (auto simp: supersede_trace split: option.splits)
    with assms(2) obtain c where "req_signal r = Some c" "c < length (tokens s)"
      "snd (req_header r) = normalize_value (chan (tokens s ! c))"
      by (auto simp: signals_known_def)
    then show ?thesis
      by (auto simp: nth_append)
  qed
  show ?thesis
  proof (cases "valid_header_value (normalize_value ?k)")
    case True
    have "signals_known (fst (send_or_warn (Validate, normalize_value ?k)
                                (Some (length (tokens s))) ?s2))"
      by (rule signals_known_send) (use old in \<open>simp_all add: nth_append\<close>)
    with reg True False show ?thesis
      by (simp add: handleInputValidation_begin_send)
  next
    case invalid: False
    have "signals_known (warn TypeError ?s2)"
      by (rule signals_known_warn) (use old in blast)
    with reg invalid False show ?thesis
      by (simp add: handleInputValidation_begin_send)
  qed
qed

lemma submit_preserves:
  assumes "tokens_registered s" "signals_known s"
  shows "tokens_registered (fst (handleFormValidation_begin s)) \<and>
         signals_known (fst (handleFormValidation_begin s))"
proof -
  let ?s2 = "set_controller ''form'' (abort_all (emit PreventDefault s))"
  have "tokens_registered ?s2"
    using assms(1) by (intro tokens_registered_abort_all) simp
  moreover have "signals_known (fst (send_or_warn (Submit, ''form'') (Some (length (tokens s))) ?s2))"
  proof (rule signals_known_send)
    fix r
    assume "Fetch r \<in> set (trace ?s2)"
    then have "Fetch r \<in> set (trace s)"
      by auto
    with assms(2) obtain c where "req_signal r = Some c" "c < length (tokens s)"
      "snd (req_header r) = normalize_value (chan (tokens s ! c))"
      by (auto simp: signals_known_def)
    then show "\<exists>c. req_signal r = Some c \<and> c < length (tokens ?s2) \<and>
                 snd (req_header r) = normalize_value (chan (tokens ?s2 ! c))"
      by (auto simp: nth_append)
  qed (simp_all add: nth_append)
  ultimately show ?thesis
    by (simp add: handleFormValidation_begin_send)
qed

lemma constructor_fresh:
  "constructor doc i = Inr s0 \<Longrightarrow> tokens s0 = [] \<and> trace s0 = [] \<and> this_form s0 \<noteq> None"
  by (auto simp: constructor_def Let_def split: option.splits)

lemma submit_listener_begin_calm:
  "calm (fst (handleFormValidation_begin s)) (state_of (submit_listener_begin s))"
  by (cases "handleFormValidation_begin s")
     (auto simp: submit_listener_begin_def split: option.splits)

lemma reachable_invariant:
  "reachable env s \<Longrightarrow> tokens_registered s \<and> signals_known s"
proof (induction rule: reachable.induct)
  case (connected doc i s0)
  then have "tokens s0 = []" "trace s0 = []"
    using constructor_fresh by blast+
  then have "tokens_registered s0 \<and> signals_known s0"
    by (simp add: tokens_registered_def signals_known_def)
  moreover have "calm s0 (state_of (connectedCallback s0))"
    by (simp add: connectedCallback_def quiet_calm)
  ultimately show ?case
    using tokens_registered_calm signals_known_calm by blast
next
  case (blurred s target)
  then show ?case using blur_preserves by blast
next
  case (submitted s)
  then have "tokens_registered (fst (handleFormValidation_begin s)) \<and>
             signals_known (fst (handleFormValidation_begin s))"
    using submit_preserves by blast
  then show ?case
    using submit_listener_begin_calm tokens_registered_calm signals_known_calm by blast
next
  case (settled s r out)
  then show ?case
    using calm_deliver tokens_registered_calm signals_known_calm by blast
next
  case (transition s)
  then show ?case
    using calm_run_transition tokens_registered_calm signals_known_calm by blast
qed

subsection \<open>What a blur sends\<close>

lemma form_node_cong:
  "this_form s' = this_form s \<Longrightarrow> page s' = page s \<Longrightarrow> limbo s' = limbo s \<Longrightarrow>
   form_node s' = form_node s"
  by (simp add: form_node_def lookup_def split: option.splits)

lemma form_node_simps [simp]:
  "form_node (set_controller k s) = form_node s"
  "form_node (supersede k s) = form_node s"
  "form_node (abort_all s) = form_node s"
  "form_node (emit e s) = form_node s"
  "form_node (fst (send_or_warn h sig s)) = form_node s"
  by (rule form_node_cong; simp)+

lemma send_or_warn_Some:
  "form_node s = Some n \<Longrightarrow>
   send_or_warn h sig s =
     (s\<lparr>inflight := inflight s @ [request_for n h sig],
        trace := trace s @ [Fetch (request_for n h sig)]\<rparr>,
      Some (request_for n h sig))"
  by (simp add: send_or_warn_eq)

lemma blur_sends:
  assumes "nvalue t \<noteq> []" "valid_header_value (normalize_value (name_of t))"
    "form_node s = Some n" "handleInputValidation_begin t s = (s', p)"
  shows "p = Some (request_for n (Validate, normalize_value (name_of t))
                     (Some (length (tokens s))))"
    and "tokens s' = tokens (supersede (name_of t) s) @ [\<lparr>chan = name_of t, aborted = None\<rparr>]"
    and "get_controller (name_of t) s' = Some (length (tokens s))"
    and "trace s' = trace (supersede (name_of t) s)
                      @ [Fetch (request_for n (Validate, normalize_value (name_of t))
                                  (Some (length (tokens s))))]"
    and "form_node s' = Some n"
proof -
  let ?k = "name_of t"
  let ?h = "(Validate, normalize_value ?k)"
  let ?s2 = "set_controller ?k (supersede ?k s)"
  have f: "form_node ?s2 = Some n" using assms(3) by simp
  have e: "handleInputValidation_begin t s = send_or_warn ?h (Some (length (tokens s))) ?s2"
    using assms(1) assms(2) by (simp add: handleInputValidation_begin_send)
  from e assms(4) have "send_or_warn ?h (Some (length (tokens s))) ?s2 = (s', p)"
    by simp
  then have s': "s' = fst (send_or_warn ?h (Some (length (tokens s))) ?s2)"
    and p: "p = snd (send_or_warn ?h (Some (length (tokens s))) ?s2)"
    by simp_all
  show "p = Some (request_for n ?h (Some (length (tokens s))))"
    using p f by (simp add: send_or_warn_Some)
  show "tokens s' = tokens (supersede (name_of t) s) @ [\<lparr>chan = name_of t, aborted = None\<rparr>]"
    using s' by simp
  show "get_controller (name_of t) s' = Some (length (tokens s))"
    using s' by (simp add: get_controller_def update_conv' set_controller_def)
  show "trace s' = trace (supersede (name_of t) s)
                      @ [Fetch (request_for n ?h (Some (length (tokens s))))]"
    using s' f by (simp add: send_or_warn_Some)
  show "form_node s' = Some n"
    using s' f by simp
qed

lemma blur_invalid_name:
  assumes "nvalue t \<noteq> []" "\<not> valid_header_value (normalize_value (name_of t))"
  shows "handleInputValidation_begin t s =
           (warn TypeError (set_controller (name_of t) (supersede (name_of t) s)), None)"
  using assms by (simp add: handleInputValidation_begin_send)

subsection \<open>Replacing an element of the document\<close>

lemma elements_Cons: "elements (n # ns) = n # elements (children n) @ elements ns"
  by (cases n) simp

lemma elements_append: "elements (xs @ ys) = elements xs @ elements ys"
  by (induction xs rule: elements.induct) simp_all

lemma find_append:
  "find P (xs @ ys) = (case find P xs of None \<Rightarrow> find P ys | Some x \<Rightarrow> Some x)"
  by (induction xs) simp_all

lemma lookup_in_replace_in:
  assumes "nid new \<notin> nid ` set (elements ns)"
  shows "lookup_in (nid new) (replace_in c new ns) =
           (if c \<in> nid ` set (elements ns) then Some new else None)"
  using assms
proof (induction c new ns rule: replace_in.induct)
  case (1 c new)
  then show ?case by (simp add: lookup_in_def)
next
  case (2 c new j t a v cs ns)
  show ?case
  proof (cases "j = c")
    case True
    then show ?thesis
      by (simp add: lookup_in_def elements_Cons [of new])
  next
    case False
    from "2.prems" have fresh: "nid new \<notin> nid ` set (elements cs)" "nid new \<notin> nid ` set (elements ns)"
      and neq: "j \<noteq> nid new"
      by auto
    from "2.IH"(2) [OF False fresh(1)] "2.IH"(3) [OF False fresh(2)] False neq
    show ?thesis
      by (auto simp: lookup_in_def find_append split: option.splits)
  qed
qed

lemma lookup_in_Some_mem: "lookup_in c ns = Some old \<Longrightarrow> c \<in> nid ` set (elements ns)"
  by (auto simp: lookup_in_def find_Some_iff)

lemma lookup_in_append:
  "lookup_in i (xs @ ys) = (case lookup_in i xs of None \<Rightarrow> lookup_in i ys | Some n \<Rightarrow> Some n)"
  by (simp add: lookup_in_def elements_append find_append split: option.splits)

lemma replaceWith_in_page:
  assumes "lookup_in c (page s) = Some old"
  shows "page (replaceWith c new s) = replace_in c new (page s)"
    and "limbo (replaceWith c new s) = limbo s @ [old]"
  using assms by (simp_all add: replaceWith_def)

lemma lookup_replaceWith:
  assumes "lookup_in c (page s) = Some old" "nid new \<notin> nid ` set (elements (page s))"
  shows "lookup (replaceWith c new s) (nid new) = Some new"
  using assms lookup_in_Some_mem [OF assms(1)]
  by (simp add: lookup_def lookup_in_append replaceWith_in_page lookup_in_replace_in)

lemma selection_range_end:
  "len < 2 ^ 32 \<Longrightarrow> selection_range (- 1) (- 1) len = (len, len)"
  by (simp add: selection_range_def to_uint32_def Let_def)

lemma first_match_invalid:
  "first_match invalid_selector ns = Some i \<Longrightarrow>
     (tag i = ''input'' \<or> tag i = ''textarea'') \<and> getAttribute i ''aria-invalid'' = Some ''true''"
  by (auto simp: first_match_def invalid_selector_def find_Some_iff)

subsection \<open>The steps of the 4XX block\<close>

lemma handleRedirect_fields [simp]:
  "page (handleRedirect response s) = page s"
  "limbo (handleRedirect response s) = limbo s"
  "self (handleRedirect response s) = self s"
  "this_form (handleRedirect response s) = this_form s"
  "listeners (handleRedirect response s) = listeners s"
  by (simp_all add: handleRedirect_def emit_def split: option.splits)

lemma this_querySelector_cong:
  "page s' = page s \<Longrightarrow> limbo s' = limbo s \<Longrightarrow> self s' = self s \<Longrightarrow>
   this_querySelector sel s' = this_querySelector sel s"
  by (simp add: this_querySelector_def lookup_def)

lemma replaceWith_fields [simp]:
  "self (replaceWith c n s) = self s"
  "this_form (replaceWith c n s) = this_form s"
  "this_targetSelector (replaceWith c n s) = this_targetSelector s"
  "this_failTargetSelector (replaceWith c n s) = this_failTargetSelector s"
  "this_controllers (replaceWith c n s) = this_controllers s"
  "tokens (replaceWith c n s) = tokens s"
  "listeners (replaceWith c n s) = listeners s"
  "inflight (replaceWith c n s) = inflight s"
  "transitions (replaceWith c n s) = transitions s"
  "focused (replaceWith c n s) = focused s"
  "selection (replaceWith c n s) = selection s"
  "trace (replaceWith c n s) = trace s"
  by (simp_all add: replaceWith_def split: option.splits)

lemma replaceElements_form:
  assumes "first_match sel doc = Some new" "this_querySelector sel s = Some old"
  shows "replaceElements doc (Some sel) None s = Ok (Some new) (replaceWith (nid old) new s)"
  using assms by (simp add: replaceElements_def)

lemma bindEvents_form:
  assumes "this_form s = Some f" "lookup s f = Some n"
  shows "bindEvents None s =
           Ok () (s\<lparr>listeners := listeners s @ (f, OnSubmit)
                     # map (\<lambda>input. (nid input, OnBlur))
                         (filter (matches validate_selector) (elements (children n)))\<rparr>)"
  using assms
  by (simp add: bindEvents_def Let_def fold_addEventListener addEventListener_def lookup_def)

lemma handleFormValidation_settled_parsed:
  "requestForm_settled env out s = Ok (response, Some doc) s1 \<Longrightarrow>
   handleFormValidation_settled env out s =
     (case and_then (and_then (status_4xx response doc
                                 (if getHeader response Redirect \<noteq> None
                                  then handleRedirect response s1 else s1))
                              (status_5xx env response doc))
                    (status_200 env response doc) of
        Threw error s3 \<Rightarrow> warn error s3
      | Ok _ s3 \<Rightarrow> s3)"
  by (simp add: handleFormValidation_settled_def Let_def)

subsection \<open>Running the component on the example\<close>

lemmas demo_defs = demo_env_def demo_input_def demo_form_def demo_component_def demo_page_def
  demo_connected_def submit_request_def demo_submitted_def typed_input_def
  blur_request_def demo_blurred_def invalid_input_def
  invalid_form_def invalid_doc_def empty_redirect_422_def request_for_def action_of_def
  redirect_422_def unread_redirect_422_def invalid_422_def new_errors_def errors_doc_def error_500_def not_found_404_def

lemmas run_defs = handleFormValidation_settled_def requestForm_settled_def isInternalUrl_def
  getHeader_def handleRedirect_def status_4xx_def status_5xx_def status_200_def replaceElements_def
  replaceWith_def bindEvents_def addEventListener_def parse_selector_def this_closest_def
  viewTransition_def warn_def emit_def replace_below_def focusFirstInvalidInput_def
  submit_listener_settled_def selection_applies_def

section \<open>Blur on an empty field\<close>

text \<open>
  C9. A blur event on a field whose current value is the empty string sends no request
  and changes nothing: the handler returns at once, the controllers, the trace of effects
  and the rest of the state are those it started with, and it waits for no request.
\<close>

theorem blur_on_empty_field:
  "nvalue target = [] \<Longrightarrow> handleInputValidation_begin target s = (s, None)"
  by (simp add: handleInputValidation_begin_def)

theorem blur_on_empty_field_witness:
  "nvalue demo_input = [] \<and>
   handleInputValidation_begin demo_input demo_connected = (demo_connected, None)"
  using blur_on_empty_field [of demo_input demo_connected] by (simp add: demo_input_def)

section \<open>The redirect header with an empty value\<close>

text \<open>
  C10. When the redirect header is present with the empty string as its value,
  \<^verbatim>\<open>handleRedirect\<close> returns without navigating, and the handling of the submission,
  with the focus step that follows it, is the one of the same response without the
  header. The only navigation that can occur is that of \<^verbatim>\<open>requestForm\<close> for a fetch that
  was redirected to another origin.
\<close>

theorem empty_redirect_header_is_ignored:
  assumes "getHeader response Redirect = Some []"
  shows "handleRedirect response s = s \<and>
         handleFormValidation_settled env (Resolved response) s =
           handleFormValidation_settled env (Resolved (without_header Redirect response)) s \<and>
         submit_listener_settled env (Resolved response) s =
           submit_listener_settled env (Resolved (without_header Redirect response)) s \<and>
         navigations (handleFormValidation_settled env (Resolved response) s) =
           navigations s @ (if redirected response \<and> \<not> isInternalUrl env (url response)
                            then [url response] else [])"
proof -
  have a: "handleRedirect response s' = s'" for s'
    using assms by (simp add: handleRedirect_def)
  have b: "handleFormValidation_settled env (Resolved response) s =
           handleFormValidation_settled env (Resolved (without_header Redirect response)) s"
    using assms
    by (simp add: handleFormValidation_settled_def requestForm_settled_def a status_blocks_header
        without_header_def getHeader_def delete_conv' Let_def split: sum.splits option.splits)
  have c: "header_navigation response = []"
    using assms by (simp add: header_navigation_def getHeader_def)
  have d: "navigations (handleFormValidation_settled env (Resolved response) s) =
           navigations s @ (if redirected response \<and> \<not> isInternalUrl env (url response)
                            then [url response] else [])"
    using c by (simp add: navigations_settled external_redirect_def)
  have e: "submit_listener_settled env (Resolved response) s =
           submit_listener_settled env (Resolved (without_header Redirect response)) s"
    using b by (simp only: submit_listener_settled_def)
  show ?thesis
    using a b d e by blast
qed

theorem empty_redirect_header_is_ignored_witness:
  "getHeader empty_redirect_422 Redirect = Some [] \<and>
   handleRedirect empty_redirect_422 demo_submitted = demo_submitted \<and>
   handleFormValidation_settled demo_env (Resolved empty_redirect_422) demo_submitted =
     handleFormValidation_settled demo_env
       (Resolved (without_header Redirect empty_redirect_422)) demo_submitted \<and>
   navigations (handleFormValidation_settled demo_env (Resolved empty_redirect_422) demo_submitted) = []"
proof -
  have h: "getHeader empty_redirect_422 Redirect = Some []"
    by (simp add: getHeader_def empty_redirect_422_def)
  have n: "navigations demo_submitted = []"
    by (simp add: navigations_def demo_submitted_def demo_connected_def)
  have r: "\<not> redirected empty_redirect_422"
    by (simp add: empty_redirect_422_def)
  note t = empty_redirect_header_is_ignored [OF h, of demo_submitted demo_env]
  have "navigations (handleFormValidation_settled demo_env (Resolved empty_redirect_422)
          demo_submitted) = []"
    using t [THEN conjunct2, THEN conjunct2, THEN conjunct2] n r by simp
  with t h show ?thesis by blast
qed

section \<open>Submission cancels what is pending\<close>

text \<open>
  C3, as the claim states it, fails: the controller registered under the submission key
  is cancelled too. Here the form was submitted once and the request is pending; the
  second submission aborts the controller of the first.
\<close>

theorem submit_spares_submission_key_counterexample:
  "get_controller ''form'' demo_submitted = Some 0 \<and>
   aborted (tokens demo_submitted ! 0) = None \<and>
   aborted (tokens (fst (handleFormValidation_begin demo_submitted)) ! 0) = Some DefaultAbort"
  by (simp add: handleFormValidation_begin_send send_or_warn_eq abort_all_def abort_def emit_def
      set_controller_def get_controller_def demo_submitted_def demo_connected_def
      split: option.splits)

text \<open>
  C3, amended. For every submission, the handler calls \<^verbatim>\<open>abort()\<close> on every controller
  of the map, in the order of the map and whatever the key, the submission key included;
  only then does it send the submission request (or, when there is no form to read, log
  the error). After it, every controller that existed before is aborted, and so is the
  signal of every request sent before; the request sent carries the submit header and
  the signal of the new controller, which is registered under the submission key and is
  not aborted.
\<close>

theorem submit_cancels_every_token_first:
  assumes "reachable env s" and "handleFormValidation_begin s = (s', p)"
  shows "trace s' = trace s @ PreventDefault
            # map (\<lambda>entry. Abort (snd entry) DefaultAbort) (this_controllers s)
            @ [case p of None \<Rightarrow> Warn TypeError | Some r \<Rightarrow> Fetch r] \<and>
         (\<forall>i < length (tokens s). aborted (tokens s' ! i) \<noteq> None) \<and>
         (\<forall>r c. Fetch r \<in> set (trace s) \<and> req_signal r = Some c \<longrightarrow> aborted (tokens s' ! c) \<noteq> None) \<and>
         (\<forall>r. p = Some r \<longrightarrow>
               req_header r = (Submit, ''form'') \<and> req_signal r = Some (length (tokens s)) \<and>
               get_controller ''form'' s' = Some (length (tokens s)) \<and>
               aborted (tokens s' ! length (tokens s)) = None) \<and>
         (p = None \<longleftrightarrow> form_node s = None)"
proof -
  let ?s1 = "abort_all (emit PreventDefault s)"
  let ?s2 = "set_controller ''form'' ?s1"
  let ?c = "length (tokens s)"
  have inv: "tokens_registered s" "signals_known s"
    using assms(1) reachable_invariant by blast+
  have e: "(s', p) = send_or_warn (Submit, ''form'') (Some ?c) ?s2"
    using assms(2) by (simp add: handleFormValidation_begin_send)
  then have s': "s' = fst (send_or_warn (Submit, ''form'') (Some ?c) ?s2)"
    and p: "p = snd (send_or_warn (Submit, ''form'') (Some ?c) ?s2)"
    by (metis fst_conv, metis snd_conv)
  have tok: "tokens s' = tokens ?s1 @ [\<lparr>chan = ''form'', aborted = None\<rparr>]"
    using s' by simp
  have dead: "aborted (tokens s' ! i) \<noteq> None" if "i < length (tokens s)" for i
  proof -
    have "tokens_registered (emit PreventDefault s)" using inv(1) by simp
    then have "aborted (tokens ?s1 ! i) \<noteq> None"
      using that by (intro abort_all_none_live) simp_all
    then show ?thesis using tok that by (simp add: nth_append)
  qed
  have a: "trace s' = trace s @ PreventDefault
            # map (\<lambda>entry. Abort (snd entry) DefaultAbort) (this_controllers s)
            @ [case p of None \<Rightarrow> Warn TypeError | Some r \<Rightarrow> Fetch r]"
    using s' p by (simp add: send_or_warn_eq split: option.splits)
  have b: "\<forall>r c. Fetch r \<in> set (trace s) \<and> req_signal r = Some c \<longrightarrow> aborted (tokens s' ! c) \<noteq> None"
    using inv(2) dead unfolding signals_known_def by (metis option.inject)
  have c: "\<forall>r. p = Some r \<longrightarrow>
               req_header r = (Submit, ''form'') \<and> req_signal r = Some ?c \<and>
               get_controller ''form'' s' = Some ?c \<and> aborted (tokens s' ! ?c) = None"
    using p s' tok
    by (auto simp: send_or_warn_eq request_for_def nth_append get_controller_def set_controller_def
        update_conv' split: option.splits)
  have d: "p = None \<longleftrightarrow> form_node s = None"
    using p by (simp add: send_or_warn_eq split: option.splits)
  show ?thesis
    using a dead b c d by blast
qed

theorem submit_cancels_every_token_first_witness:
  "reachable demo_env demo_submitted \<and>
   (\<exists>s' r. handleFormValidation_begin demo_submitted = (s', Some r) \<and>
      trace s' = trace demo_submitted @ [PreventDefault, Abort 0 DefaultAbort, Fetch r] \<and>
      aborted (tokens s' ! 0) \<noteq> None \<and> req_signal r = Some 1 \<and>
      aborted (tokens s' ! 1) = None)"
proof -
  have r: "reachable demo_env demo_submitted"
    by (rule demo_reachable)
  obtain s' p where e: "handleFormValidation_begin demo_submitted = (s', p)"
    by (cases "handleFormValidation_begin demo_submitted")
  have f: "form_node demo_submitted \<noteq> None"
    by (simp add: form_node_def demo_submitted_def demo_connected_def demo_page_def
        demo_component_def demo_form_def demo_input_def lookup_def lookup_in_def)
  have l: "length (tokens demo_submitted) = 1"
      "this_controllers demo_submitted = [(''form'', 0)]"
    by (simp_all add: demo_submitted_def demo_connected_def)
  from submit_cancels_every_token_first [OF r e] f l
  obtain q where "p = Some q"
    by (cases p) auto
  with submit_cancels_every_token_first [OF r e] l e r show ?thesis
    by auto
qed

section \<open>One live request per field\<close>

text \<open>
  C4. In every state the component can reach, at most one controller per channel key is
  not aborted, before and after every blur. A blur of a field with a value, whose name
  \<^verbatim>\<open>headers.append\<close> accepts as a header value, sends a validation request for the field:
  its header carries the name without the white space at its ends, its signal is that of
  a new controller that is not aborted. Every earlier request whose controller was
  registered under the name of the field, and whose signal was still live, is cancelled
  by this blur before the new request is sent: the call of \<^verbatim>\<open>abort\<close> stands right before
  the call of \<^verbatim>\<open>fetch\<close> in the trace, and the earlier request settles as a rejection with
  the reason \<^verbatim>\<open>"Aborted by user"\<close>, which is neither the reason of a cancellation by a
  submission (\<open>DefaultAbort\<close>) nor a network failure. So of two successive validations of
  a field, the earlier is cancelled as superseded before the later is issued. For a name
  that is no header value (it holds a line break or a NUL inside) the blur still cancels
  and registers, but \<^verbatim>\<open>append\<close> throws, and the handler logs the \<^verbatim>\<open>TypeError\<close> and
  sends nothing (\<open>blur_invalid_name\<close>); hence the hypothesis on the name.
\<close>

theorem successive_blurs_supersede:
  assumes "reachable env s" and "nvalue t \<noteq> []"
    and "valid_header_value (normalize_value (name_of t))" and "form_node s = Some n"
    and "handleInputValidation_begin t s = (s', p)"
  shows "\<exists>r2. p = Some r2 \<and> req_header r2 = (Validate, normalize_value (name_of t)) \<and>
           req_signal r2 = Some (length (tokens s)) \<and>
           length (tokens s) < length (tokens s') \<and>
           aborted (tokens s' ! length (tokens s)) = None \<and>
           Fetch r2 = last (trace s') \<and>
           at_most_one_live s \<and> at_most_one_live s' \<and>
           (\<forall>r1 c1. Fetch r1 \<in> set (trace s) \<and> req_signal r1 = Some c1 \<and>
                    chan (tokens s ! c1) = name_of t \<and> aborted (tokens s ! c1) = None \<longrightarrow>
              trace s' = trace s @ [Abort c1 (Because ''Aborted by user''), Fetch r2] \<and>
              aborted (tokens s' ! c1) = Some (Because ''Aborted by user'') \<and>
              settle s' r1 out = Rejected (Aborted (Because ''Aborted by user'')))"
proof -
  let ?k = "name_of t"
  let ?c2 = "length (tokens s)"
  let ?r2 = "request_for n (Validate, normalize_value ?k) (Some ?c2)"
  note b = blur_sends [OF assms(2) assms(3) assms(4) assms(5)]
  have inv: "tokens_registered s" "signals_known s"
    using assms(1) reachable_invariant by blast+
  have r': "reachable env s'"
    using reachable.blurred [OF assms(1), of t] assms(5) by simp
  have one: "at_most_one_live s \<and> at_most_one_live s'"
    using assms(1) r' reachable_invariant tokens_registered_one_live by blast
  have len: "length (tokens s') = Suc ?c2"
    using b(2) by simp
  have live2: "aborted (tokens s' ! ?c2) = None"
    using b(2) by (simp add: nth_append)
  have last: "Fetch ?r2 = last (trace s')"
    using b(4) by simp
  have earlier: "trace s' = trace s @ [Abort c1 (Because ''Aborted by user''), Fetch ?r2] \<and>
              aborted (tokens s' ! c1) = Some (Because ''Aborted by user'') \<and>
              settle s' r1 out = Rejected (Aborted (Because ''Aborted by user''))"
    if h: "Fetch r1 \<in> set (trace s)" "req_signal r1 = Some c1" "chan (tokens s ! c1) = ?k"
      "aborted (tokens s ! c1) = None" for r1 c1
  proof -
    from inv(2) h(1,2) have c1: "c1 < length (tokens s)"
      by (auto simp: signals_known_def)
    from inv(1) c1 h(4) have "get_controller (chan (tokens s ! c1)) s = Some c1"
      unfolding tokens_registered_def by blast
    with h(3) have g: "get_controller ?k s = Some c1"
      by simp
    have tr: "trace s' = trace s @ [Abort c1 (Because ''Aborted by user''), Fetch ?r2]"
      using b(4) g by (simp add: supersede_trace)
    have "aborted (tokens (supersede ?k s) ! c1) = Some (Because ''Aborted by user'')"
      using g h(4) c1 by (simp add: supersede_aborted)
    then have dead: "aborted (tokens s' ! c1) = Some (Because ''Aborted by user'')"
      using b(2) c1 by (simp add: nth_append)
    have "settle s' r1 out = Rejected (Aborted (Because ''Aborted by user''))"
      using dead c1 len h(2) by (simp add: settle_def)
    with tr dead show ?thesis by simp
  qed
  have hd: "req_header ?r2 = (Validate, normalize_value ?k)" "req_signal ?r2 = Some ?c2"
    by (simp_all add: request_for_def)
  have lt: "length (tokens s) < length (tokens s')"
    using len by simp
  have all: "\<forall>r1 c1. Fetch r1 \<in> set (trace s) \<and> req_signal r1 = Some c1 \<and>
                    chan (tokens s ! c1) = name_of t \<and> aborted (tokens s ! c1) = None \<longrightarrow>
              trace s' = trace s @ [Abort c1 (Because ''Aborted by user''), Fetch ?r2] \<and>
              aborted (tokens s' ! c1) = Some (Because ''Aborted by user'') \<and>
              settle s' r1 out = Rejected (Aborted (Because ''Aborted by user''))"
    using earlier by blast
  show ?thesis
    using b(1) hd lt live2 last one all by blast
qed

theorem successive_blurs_supersede_witness:
  "reachable demo_env demo_blurred \<and> nvalue typed_input \<noteq> [] \<and>
   valid_header_value (normalize_value (name_of typed_input)) \<and>
   form_node demo_blurred = Some demo_form \<and>
   Fetch blur_request \<in> set (trace demo_blurred) \<and>
   req_signal blur_request = Some 0 \<and>
   chan (tokens demo_blurred ! 0) = name_of typed_input \<and>
   aborted (tokens demo_blurred ! 0) = None \<and>
   (\<exists>s' r2.
      handleInputValidation_begin typed_input demo_blurred = (s', Some r2) \<and>
      req_header r2 = (Validate, ''email'') \<and>
      req_signal r2 = Some 1 \<and> aborted (tokens s' ! 1) = None \<and>
      trace s' = trace demo_blurred @ [Abort 0 (Because ''Aborted by user''), Fetch r2] \<and>
      aborted (tokens s' ! 0) = Some (Because ''Aborted by user'') \<and>
      settle s' blur_request (Rejected NetworkError) =
        Rejected (Aborted (Because ''Aborted by user'')) \<and>
      at_most_one_live s')"
proof -
  have r: "reachable demo_env demo_blurred"
    by (rule demo_reachable)
  have v: "nvalue typed_input \<noteq> []"
    by (simp add: typed_input_def)
  have h: "valid_header_value (normalize_value (name_of typed_input))"
    "normalize_value (name_of typed_input) = ''email''"
    by (simp_all add: valid_header_value_def normalize_value_def http_whitespace_def
        name_of_def typed_input_def getAttribute_def or_else_def)
  have f: "form_node demo_blurred = Some demo_form"
    by (simp add: form_node_def demo_blurred_def demo_connected_def demo_page_def
        demo_component_def demo_form_def demo_input_def lookup_def lookup_in_def)
  have e: "Fetch blur_request \<in> set (trace demo_blurred)"
    "req_signal blur_request = Some 0" "chan (tokens demo_blurred ! 0) = name_of typed_input"
    "aborted (tokens demo_blurred ! 0) = None"
    "length (tokens demo_blurred) = 1"
    by (simp_all add: demo_blurred_def demo_connected_def blur_request_def request_for_def
        name_of_def typed_input_def getAttribute_def or_else_def)
  obtain s' p where b: "handleInputValidation_begin typed_input demo_blurred = (s', p)"
    by (cases "handleInputValidation_begin typed_input demo_blurred")
  from successive_blurs_supersede [OF r v h(1) f b, of "Rejected NetworkError"] e h(2)
  have "\<exists>r2. p = Some r2 \<and>
      req_header r2 = (Validate, ''email'') \<and>
      req_signal r2 = Some 1 \<and> aborted (tokens s' ! 1) = None \<and>
      trace s' = trace demo_blurred @ [Abort 0 (Because ''Aborted by user''), Fetch r2] \<and>
      aborted (tokens s' ! 0) = Some (Because ''Aborted by user'') \<and>
      settle s' blur_request (Rejected NetworkError) =
        Rejected (Aborted (Because ''Aborted by user'')) \<and>
      at_most_one_live s'"
    by auto
  with r v h(1) f e b show ?thesis by blast
qed

section \<open>A 4XX response brings the form back\<close>

text \<open>
  C6. Take a response with a status from 400 to 499 whose body was read and holds a form
  element, in a state where the form of the component is its first form element and
  stands in the live document, the new form being a new element. Then the live form gives
  its place to the form of the response, \<^verbatim>\<open>this._form\<close> refers to the new form, the
  submit listener is bound to it and a blur listener to each of its inputs and textareas
  that carry \<^verbatim>\<open>enhance-validate\<close>. After the handler, the submit listener calls
  \<^verbatim>\<open>focus()\<close> on the first input or textarea of the new form with
  \<^verbatim>\<open>aria-invalid="true"\<close>, and, where the element has a selection (a textarea or a
  text-like input), puts the caret at the end of its value. The theorem does not ask for
  the redirect header to be absent.
\<close>

theorem client_error_replaces_form:
  assumes "400 \<le> status response" and "status response \<le> 499"
    and "body response = Inr doc" and "\<not> external_redirect env response"
    and "first_match form_selector doc = Some newForm"
    and "this_querySelector form_selector s = Some oldForm"
    and "this_form s = Some (nid oldForm)"
    and "lookup_in (nid oldForm) (page s) \<noteq> None"
    and "nid newForm \<notin> nid ` set (elements (page s))"
  shows "page (handleFormValidation_settled env (Resolved response) s) =
           replace_in (nid oldForm) newForm (page s) \<and>
         form_node (handleFormValidation_settled env (Resolved response) s) = Some newForm \<and>
         listeners (handleFormValidation_settled env (Resolved response) s) =
           listeners s @ (nid newForm, OnSubmit)
             # map (\<lambda>input. (nid input, OnBlur))
                 (filter (matches validate_selector) (elements (children newForm))) \<and>
         (case first_match invalid_selector (children newForm) of
            None \<Rightarrow>
              submit_listener_settled env (Resolved response) s =
                Ok () (handleFormValidation_settled env (Resolved response) s)
          | Some i \<Rightarrow>
              (tag i = ''input'' \<or> tag i = ''textarea'') \<and>
              getAttribute i ''aria-invalid'' = Some ''true'' \<and>
              focused (state_of (submit_listener_settled env (Resolved response) s)) = Some (nid i) \<and>
              (selection_applies i \<and> length (nvalue i) < 2 ^ 32 \<longrightarrow>
                 selection (state_of (submit_listener_settled env (Resolved response) s)) =
                   Some (nid i, length (nvalue i), length (nvalue i))))"
proof -
  let ?f = "nid oldForm"
  obtain x where x: "lookup_in ?f (page s) = Some x"
    using assms(8) by blast
  define s2 where "s2 = (if getHeader response Redirect \<noteq> None then handleRedirect response s else s)"
  define ls where "ls = listeners s @ (nid newForm, OnSubmit)
             # map (\<lambda>input. (nid input, OnBlur))
                 (filter (matches validate_selector) (elements (children newForm)))"
  define s3 where "s3 = (replaceWith ?f newForm s2)\<lparr>this_form := Some (nid newForm)\<rparr>"
  define s4 where "s4 = s3\<lparr>listeners := ls\<rparr>"
  have p2: "page s2 = page s" "limbo s2 = limbo s" "listeners s2 = listeners s"
    "self s2 = self s"
    by (simp_all add: s2_def)
  have q2: "this_querySelector form_selector s2 = Some oldForm"
    using assms(6) this_querySelector_cong [OF p2(1,2,4)] by simp
  have x2: "lookup_in ?f (page s2) = Some x" using x p2 by simp
  have fresh2: "nid newForm \<notin> nid ` set (elements (page s2))" using assms(9) p2 by simp
  have re: "replaceElements doc (Some form_selector) None s2 = Ok (Some newForm) (replaceWith ?f newForm s2)"
    using assms(5) q2 by (rule replaceElements_form)
  have l3: "lookup s3 (nid newForm) = Some newForm"
    using lookup_replaceWith [OF x2 fresh2] by (simp add: s3_def lookup_def)
  have f3: "this_form s3 = Some (nid newForm)" by (simp add: s3_def)
  have li3: "listeners s3 = listeners s" using p2 by (simp add: s3_def)
  have be: "bindEvents None s3 = Ok () s4"
    using bindEvents_form [OF f3 l3] by (simp add: s4_def ls_def li3)
  have b4: "status_4xx response doc s2 = Ok () s4"
    using assms(1,2) re be by (simp add: status_4xx_def s3_def)
  have b5: "status_5xx env response doc s4 = Ok () s4"
    using assms(2) by (simp add: status_5xx_def)
  have b2: "status_200 env response doc s4 = Ok () s4"
    using assms(1) by (simp add: status_200_def)
  have rs: "requestForm_settled env (Resolved response) s = Ok (response, Some doc) s"
    using assms(3,4) by (simp add: requestForm_settled_Resolved)
  have fin: "handleFormValidation_settled env (Resolved response) s = s4"
    using b4 b5 b2 unfolding handleFormValidation_settled_parsed [OF rs] s2_def [symmetric] by simp
  have pg: "page s4 = replace_in ?f newForm (page s)"
    using replaceWith_in_page(1) [OF x2] p2 by (simp add: s4_def s3_def)
  have l4: "lookup s4 (nid newForm) = Some newForm"
    using l3 by (simp add: s4_def lookup_def)
  have f4: "this_form s4 = Some (nid newForm)" by (simp add: s4_def s3_def)
  have fn: "form_node s4 = Some newForm" using f4 l4 by (simp add: form_node_def)
  have li: "listeners s4 = ls" by (simp add: s4_def)
  have foc: "case first_match invalid_selector (children newForm) of
            None \<Rightarrow> focusFirstInvalidInput s4 = Ok () s4
          | Some i \<Rightarrow>
              (tag i = ''input'' \<or> tag i = ''textarea'') \<and>
              getAttribute i ''aria-invalid'' = Some ''true'' \<and>
              focused (state_of (focusFirstInvalidInput s4)) = Some (nid i) \<and>
              (selection_applies i \<and> length (nvalue i) < 2 ^ 32 \<longrightarrow>
                 selection (state_of (focusFirstInvalidInput s4)) =
                   Some (nid i, length (nvalue i), length (nvalue i)))"
  proof (cases "first_match invalid_selector (children newForm)")
    case None
    then show ?thesis using f4 l4 by (simp add: focusFirstInvalidInput_def)
  next
    case (Some i)
    then show ?thesis
      using f4 l4 first_match_invalid [OF Some]
      by (simp add: focusFirstInvalidInput_def Let_def selection_range_end)
  qed
  have sl: "submit_listener_settled env (Resolved response) s = focusFirstInvalidInput s4"
    by (simp only: submit_listener_settled_def fin)
  show ?thesis
    unfolding fin sl using pg fn li [unfolded ls_def] foc by (intro conjI)
qed

theorem client_error_replaces_form_witness:
  "400 \<le> status invalid_422 \<and> status invalid_422 \<le> 499 \<and>
   body invalid_422 = Inr invalid_doc \<and> \<not> external_redirect demo_env invalid_422 \<and>
   first_match form_selector invalid_doc = Some invalid_form \<and>
   this_querySelector form_selector demo_submitted = Some demo_form \<and>
   this_form demo_submitted = Some (nid demo_form) \<and>
   lookup_in (nid demo_form) (page demo_submitted) \<noteq> None \<and>
   nid invalid_form \<notin> nid ` set (elements (page demo_submitted)) \<and>
   page (handleFormValidation_settled demo_env (Resolved invalid_422) demo_submitted) =
     [Node 1 ''main'' [] []
        [Node 2 ''enhance-form'' [(''target'', ''#result''), (''fail-target'', ''#errors'')] []
           [invalid_form],
         Node 6 ''div'' [(''id'', ''result'')] [] [],
         Node 7 ''div'' [(''id'', ''errors'')] [] []]] \<and>
   form_node (handleFormValidation_settled demo_env (Resolved invalid_422) demo_submitted) =
     Some invalid_form \<and>
   listeners (handleFormValidation_settled demo_env (Resolved invalid_422) demo_submitted) =
     [(3, OnSubmit), (5, OnBlur), (12, OnSubmit), (14, OnBlur)] \<and>
   focused (state_of (submit_listener_settled demo_env (Resolved invalid_422) demo_submitted)) =
     Some 14 \<and>
   selection (state_of (submit_listener_settled demo_env (Resolved invalid_422) demo_submitted)) =
     Some (14, 3, 3)"
proof -
  have h1: "400 \<le> status invalid_422" and h2: "status invalid_422 \<le> 499"
    and h3: "body invalid_422 = Inr invalid_doc"
    and h4: "\<not> external_redirect demo_env invalid_422"
    by (simp_all add: invalid_422_def empty_redirect_422_def external_redirect_def)
  have h5: "first_match form_selector invalid_doc = Some invalid_form"
    by (simp add: first_match_def form_selector_def invalid_doc_def invalid_form_def
        invalid_input_def)
  have h6: "this_querySelector form_selector demo_submitted = Some demo_form"
    by (simp add: demo_defs dom_simps)
  have h7: "this_form demo_submitted = Some (nid demo_form)"
    by (simp add: demo_defs)
  have h8: "lookup_in (nid demo_form) (page demo_submitted) \<noteq> None"
    by (simp add: demo_defs dom_simps)
  have h9: "nid invalid_form \<notin> nid ` set (elements (page demo_submitted))"
    by (simp add: demo_defs)
  have i: "first_match invalid_selector (children invalid_form) = Some invalid_input"
    by (simp add: first_match_def invalid_selector_def invalid_form_def invalid_input_def
        getAttribute_def)
  have a: "selection_applies invalid_input" "length (nvalue invalid_input) = 3"
    "nid invalid_input = 14" "nid invalid_form = 12" "nid demo_form = 3"
    by (simp_all add: selection_applies_def invalid_input_def invalid_form_def demo_form_def
        getAttribute_def or_else_def)
  have v: "filter (matches validate_selector) (elements (children invalid_form)) = [invalid_input]"
    by (simp add: validate_selector_def invalid_form_def invalid_input_def getAttribute_def)
  have p: "replace_in 3 invalid_form (page demo_submitted) =
     [Node 1 ''main'' [] []
        [Node 2 ''enhance-form'' [(''target'', ''#result''), (''fail-target'', ''#errors'')] []
           [invalid_form],
         Node 6 ''div'' [(''id'', ''result'')] [] [],
         Node 7 ''div'' [(''id'', ''errors'')] [] []]]"
    by (simp add: demo_submitted_def demo_connected_def demo_page_def demo_component_def
        demo_form_def demo_input_def)
  have l: "listeners demo_submitted = [(3, OnSubmit), (5, OnBlur)]"
    by (simp add: demo_submitted_def demo_connected_def)
  from client_error_replaces_form [OF h1 h2 h3 h4 h5 h6 h7 h8 h9]
  show ?thesis
    using h1 h2 h3 h4 h5 h6 h7 h8 h9 by (simp add: i a v p l)
qed

section \<open>Failures are caught\<close>

text \<open>
  A request whose signal is aborted settles as a failure carrying the abort reason.
\<close>

lemma cancelled_request_fails:
  "req_signal r = Some c \<Longrightarrow> c < length (tokens s) \<Longrightarrow> aborted (tokens s ! c) = Some reason \<Longrightarrow>
   failure env (settle s r out) = Some (Aborted reason)"
  by (simp add: settle_def failure_def)

lemma resubmitted_token:
  "aborted (tokens (fst (handleFormValidation_begin demo_submitted)) ! 0) = Some DefaultAbort \<and>
   length (tokens (fst (handleFormValidation_begin demo_submitted))) = 2"
  by (simp add: handleFormValidation_begin_send send_or_warn_eq abort_all_def abort_def emit_def
      set_controller_def get_controller_def demo_submitted_def demo_connected_def
      split: option.splits)

text \<open>
  C8. Whenever the request of a field validation or of a submission fails, by a network
  failure or a cancellation (\<^verbatim>\<open>fetch\<close> rejects) or while the body is read and parsed,
  the handler ends normally: its result is a state, in which the failure has been logged
  with \<^verbatim>\<open>console.warn\<close> and nothing else has changed; document, form reference,
  listeners, controllers and focus are those from before.
\<close>

theorem failures_are_caught_and_logged:
  assumes "failure env out = Some e"
  shows "handleInputValidation_settled env grp out s = s\<lparr>trace := trace s @ [Warn e]\<rparr> \<and>
         handleFormValidation_settled env out s = s\<lparr>trace := trace s @ [Warn e]\<rparr>"
proof -
  have "requestForm_settled env out s = Threw e s"
  proof (cases out)
    case (Rejected e')
    with assms show ?thesis by (simp add: failure_def requestForm_settled_def)
  next
    case (Resolved response)
    with assms show ?thesis
      by (simp add: failure_def requestForm_settled_Resolved split: if_splits sum.splits)
  qed
  then show ?thesis
    by (simp add: handleInputValidation_settled_def handleFormValidation_settled_def warn_def
        emit_def)
qed

theorem failures_are_caught_and_logged_witness:
  "failure demo_env
     (settle (fst (handleFormValidation_begin demo_submitted)) submit_request (Resolved error_500))
     = Some (Aborted DefaultAbort) \<and>
   handleFormValidation_settled demo_env
     (settle (fst (handleFormValidation_begin demo_submitted)) submit_request (Resolved error_500))
     (fst (handleFormValidation_begin demo_submitted)) =
   (fst (handleFormValidation_begin demo_submitted))
     \<lparr>trace := trace (fst (handleFormValidation_begin demo_submitted))
                @ [Warn (Aborted DefaultAbort)]\<rparr>"
proof -
  have g: "req_signal submit_request = Some 0"
    by (simp add: submit_request_def request_for_def)
  have l: "0 < length (tokens (fst (handleFormValidation_begin demo_submitted)))"
    using resubmitted_token by simp
  have a: "aborted (tokens (fst (handleFormValidation_begin demo_submitted)) ! 0) = Some DefaultAbort"
    using resubmitted_token by blast
  have f: "failure demo_env
     (settle (fst (handleFormValidation_begin demo_submitted)) submit_request (Resolved error_500))
     = Some (Aborted DefaultAbort)"
    by (rule cancelled_request_fails [OF g l a])
  from failures_are_caught_and_logged [OF f] f show ?thesis by blast
qed

section \<open>The redirect header\<close>

text \<open>
  C1, as the claim states it, fails. With the header present and empty, nothing is
  navigated to; nor is it when the header holds a URL and the body of the response cannot
  be read. With the header holding a URL and the body read, the browser is sent there, and
  the status blocks run all the same: for status 422 the form of the page is replaced by
  the form of the response.
\<close>

theorem redirect_header_counterexample:
  "getHeader empty_redirect_422 Redirect = Some [] \<and>
   navigations (handleFormValidation_settled demo_env (Resolved empty_redirect_422) demo_submitted)
     = [] \<and>
   getHeader unread_redirect_422 Redirect = Some ''/thanks'' \<and>
   navigations (handleFormValidation_settled demo_env (Resolved unread_redirect_422) demo_submitted)
     = [] \<and>
   getHeader redirect_422 Redirect = Some ''/thanks'' \<and>
   navigations (handleFormValidation_settled demo_env (Resolved redirect_422) demo_submitted)
     = [''/thanks''] \<and>
   page demo_submitted =
     [Node 1 ''main'' [] []
        [Node 2 ''enhance-form'' [(''target'', ''#result''), (''fail-target'', ''#errors'')] []
           [demo_form],
         Node 6 ''div'' [(''id'', ''result'')] [] [],
         Node 7 ''div'' [(''id'', ''errors'')] [] []]] \<and>
   page (handleFormValidation_settled demo_env (Resolved redirect_422) demo_submitted) =
     [Node 1 ''main'' [] []
        [Node 2 ''enhance-form'' [(''target'', ''#result''), (''fail-target'', ''#errors'')] []
           [invalid_form],
         Node 6 ''div'' [(''id'', ''result'')] [] [],
         Node 7 ''div'' [(''id'', ''errors'')] [] []]] \<and>
   demo_form \<noteq> invalid_form"
  by (simp add: run_defs demo_defs dom_simps navigations_def Let_def)

text \<open>
  C1, amended. For every submission response whose body was read and whose redirect
  header holds a non-empty value, whatever the status, \<^verbatim>\<open>handleRedirect\<close> hands exactly
  that value to \<^verbatim>\<open>window.location.assign\<close>: it is the one navigation of the handler,
  after that of \<^verbatim>\<open>requestForm\<close> when the fetch was redirected to another origin.
\<close>

theorem redirect_header_navigates:
  assumes "getHeader response Redirect = Some u" and "u \<noteq> []" and "body response = Inr html"
  shows "navigations (handleFormValidation_settled env (Resolved response) s) =
           navigations s
             @ (if redirected response \<and> \<not> isInternalUrl env (url response)
                then [url response] else [])
             @ [u]"
  using assms
  by (simp add: navigations_settled header_navigation_def getHeader_def external_redirect_def)

theorem redirect_header_navigates_witness:
  "getHeader redirect_422 Redirect = Some ''/thanks'' \<and> ''/thanks'' \<noteq> [] \<and>
   body redirect_422 = Inr invalid_doc \<and>
   navigations (handleFormValidation_settled demo_env (Resolved redirect_422) demo_submitted) =
     [''/thanks'']"
proof -
  have h: "getHeader redirect_422 Redirect = Some ''/thanks''" "body redirect_422 = Inr invalid_doc"
    "\<not> redirected redirect_422"
    by (simp_all add: getHeader_def redirect_422_def empty_redirect_422_def)
  have n: "navigations demo_submitted = []"
    by (simp add: navigations_def demo_submitted_def demo_connected_def)
  from redirect_header_navigates [OF h(1) _ h(2), of demo_env demo_submitted] h n
  show ?thesis by simp
qed

section \<open>A 5XX response\<close>

text \<open>
  For a 5XX response whose body was read and holds a match of the fail-target selector,
  the component itself, when it stands in the document, gives its place to that match.
\<close>

lemma handleRedirect_selectors [simp]:
  "this_failTargetSelector (handleRedirect response s) = this_failTargetSelector s"
  "this_targetSelector (handleRedirect response s) = this_targetSelector s"
  by (simp_all add: handleRedirect_def emit_def split: option.splits)

lemma server_error_replaces_self:
  assumes "500 \<le> status response" and "status response \<le> 599"
    and "body response = Inr doc" and "\<not> external_redirect env response"
    and "parse_selector env (this_failTargetSelector s) = Some sel"
    and "first_match sel doc = Some n"
    and "lookup_in (self s) (page s) = Some component"
  shows "page (handleFormValidation_settled env (Resolved response) s) =
           replace_in (self s) n (page s) \<and>
         limbo (handleFormValidation_settled env (Resolved response) s) = limbo s @ [component]"
proof -
  define s2 where "s2 = (if getHeader response Redirect \<noteq> None then handleRedirect response s else s)"
  have p2: "page s2 = page s" "limbo s2 = limbo s" "self s2 = self s"
    "this_failTargetSelector s2 = this_failTargetSelector s"
    by (simp_all add: s2_def)
  have rs: "requestForm_settled env (Resolved response) s = Ok (response, Some doc) s"
    using assms(3,4) by (simp add: requestForm_settled_Resolved)
  have b4: "status_4xx response doc s2 = Ok () s2"
    using assms(1) by (simp add: status_4xx_def)
  have b5: "status_5xx env response doc s2 = Ok () (replaceWith (self s) n s2)"
    using assms(1,2,5,6) p2 by (simp add: status_5xx_def replaceElements_def)
  have b2: "status_200 env response doc s3 = Ok () s3" for s3
    using assms(1) by (simp add: status_200_def)
  have fin: "handleFormValidation_settled env (Resolved response) s = replaceWith (self s) n s2"
    unfolding handleFormValidation_settled_parsed [OF rs] s2_def [symmetric] b4
    by (simp add: b5 b2)
  have x: "lookup_in (self s) (page s2) = Some component"
    using assms(7) p2 by simp
  show ?thesis
    unfolding fin using replaceWith_in_page [OF x] p2 by simp
qed

text \<open>
  C2. On the page of the README a response with status 500 does not replace the element
  the fail-target selector matches in the live document (element 7): the handler passes
  the component itself to \<^verbatim>\<open>replaceElements\<close>, so the component with its form is taken
  out of the document and the element of the response stands in its place, next to the
  old fail target.
\<close>

theorem server_error_replaces_component:
  "first_match (SelAttrEq ''id'' ''errors'') (page demo_submitted) =
     Some (Node 7 ''div'' [(''id'', ''errors'')] [] []) \<and>
   page (handleFormValidation_settled demo_env (Resolved error_500) demo_submitted) =
     [Node 1 ''main'' [] []
        [new_errors,
         Node 6 ''div'' [(''id'', ''result'')] [] [],
         Node 7 ''div'' [(''id'', ''errors'')] [] []]] \<and>
   limbo (handleFormValidation_settled demo_env (Resolved error_500) demo_submitted) =
     [demo_component]"
  by (simp add: run_defs demo_defs dom_simps Let_def)

section \<open>The replace operation\<close>

text \<open>
  C5, as the claim states it, fails: the selector is not searched within the root
  override. On the page of the README the component (element 2) holds no element that
  matches the selector, and with the component as root override the operation still
  replaces: the component itself gives its place to the match of the new document.
\<close>

theorem replaceElements_override_counterexample:
  "nid demo_component = 2 \<and>
   first_match (SelAttrEq ''id'' ''errors'') (children demo_component) = None \<and>
   replaceElements errors_doc (Some (SelAttrEq ''id'' ''errors'')) (Some 2) demo_connected =
     Ok (Some new_errors)
        (demo_connected
           \<lparr>page := [Node 1 ''main'' [] []
                       [new_errors,
                        Node 6 ''div'' [(''id'', ''result'')] [] [],
                        Node 7 ''div'' [(''id'', ''errors'')] [] []]],
            limbo := [demo_component]\<rparr>)"
  by (simp add: run_defs demo_defs dom_simps Let_def)

text \<open>
  C5, amended. The operation finds the first match of the selector in the new document.
  Its current node is the root override itself when one is given, else the first match
  of the selector within the component's own subtree. When there is a new match and a
  current node, and the current node stands in the live document, the current node gives
  its place to the new match, nothing else of the state changes but that the old node is
  now detached, and the new match is returned. When the new document has no match, or no
  override is given and the component has no match, nothing changes and none is returned.
\<close>

theorem replaceElements_swaps_current_node:
  "(first_match sel html = None \<longrightarrow> replaceElements html (Some sel) root s = Ok None s) \<and>
   (root = None \<and> this_querySelector sel s = None \<longrightarrow>
      replaceElements html (Some sel) root s = Ok None s) \<and>
   (\<forall>n c old.
      first_match sel html = Some n \<and>
      (root = Some c \<or> root = None \<and> map_option nid (this_querySelector sel s) = Some c) \<and>
      lookup_in c (page s) = Some old \<longrightarrow>
      replaceElements html (Some sel) root s =
        Ok (Some n) (s\<lparr>page := replace_in c n (page s), limbo := limbo s @ [old]\<rparr>))"
  by (auto simp: replaceElements_def replaceWith_def split: option.splits)

theorem replaceElements_swaps_current_node_witness:
  "first_match (SelAttrEq ''id'' ''errors'') invalid_doc = None \<and>
   replaceElements invalid_doc (Some (SelAttrEq ''id'' ''errors'')) (Some 2) demo_connected =
     Ok None demo_connected \<and>
   this_querySelector (SelAttrEq ''id'' ''errors'') demo_connected = None \<and>
   replaceElements errors_doc (Some (SelAttrEq ''id'' ''errors'')) None demo_connected =
     Ok None demo_connected \<and>
   first_match (SelAttrEq ''id'' ''errors'') errors_doc = Some new_errors \<and>
   lookup_in 2 (page demo_connected) = Some demo_component \<and>
   replaceElements errors_doc (Some (SelAttrEq ''id'' ''errors'')) (Some 2) demo_connected =
     Ok (Some new_errors)
        (demo_connected\<lparr>page := replace_in 2 new_errors (page demo_connected),
                        limbo := limbo demo_connected @ [demo_component]\<rparr>)"
proof -
  have a: "first_match (SelAttrEq ''id'' ''errors'') invalid_doc = None"
    by (simp add: demo_defs dom_simps)
  have b: "this_querySelector (SelAttrEq ''id'' ''errors'') demo_connected = None"
    by (simp add: demo_defs dom_simps)
  have c: "first_match (SelAttrEq ''id'' ''errors'') errors_doc = Some new_errors"
    by (simp add: demo_defs dom_simps)
  have d: "lookup_in 2 (page demo_connected) = Some demo_component"
    by (simp add: demo_defs dom_simps)
  note t1 = replaceElements_swaps_current_node
    [of "SelAttrEq ''id'' ''errors''" invalid_doc "Some 2" demo_connected]
  note t2 = replaceElements_swaps_current_node
    [of "SelAttrEq ''id'' ''errors''" errors_doc None demo_connected]
  note t3 = replaceElements_swaps_current_node
    [of "SelAttrEq ''id'' ''errors''" errors_doc "Some 2" demo_connected]
  have e1: "replaceElements invalid_doc (Some (SelAttrEq ''id'' ''errors'')) (Some 2) demo_connected =
     Ok None demo_connected"
    using t1 a by blast
  have e2: "replaceElements errors_doc (Some (SelAttrEq ''id'' ''errors'')) None demo_connected =
     Ok None demo_connected"
    using t2 b by blast
  have e3: "replaceElements errors_doc (Some (SelAttrEq ''id'' ''errors'')) (Some 2) demo_connected =
     Ok (Some new_errors)
        (demo_connected\<lparr>page := replace_in 2 new_errors (page demo_connected),
                        limbo := limbo demo_connected @ [demo_component]\<rparr>)"
    using t3 c d by blast
  show ?thesis
    using a b c d e1 e2 e3 by blast
qed

section \<open>The form reference\<close>

text \<open>
  The constructor leaves a reference to the first form of the component, and a field
  validation never changes the reference.
\<close>

lemma first_match_form: "first_match form_selector ns = Some f \<Longrightarrow> tag f = ''form''"
  by (auto simp: first_match_def form_selector_def find_Some_iff)

lemma constructor_form:
  assumes "constructor doc i = Inr s0"
  shows "\<exists>f. this_querySelector form_selector s0 = Some f \<and> this_form s0 = Some (nid f) \<and>
             tag f = ''form''"
proof -
  from assms have "map_option nid (this_querySelector form_selector s0) = this_form s0"
    and "this_form s0 \<noteq> None"
    by (auto simp: constructor_def Let_def this_querySelector_def lookup_def split: option.splits)
  then obtain f where f: "this_querySelector form_selector s0 = Some f" "this_form s0 = Some (nid f)"
    by (cases "this_querySelector form_selector s0") auto
  from f(1) have "tag f = ''form''"
    by (auto simp: this_querySelector_def split: option.splits dest: first_match_form)
  with f show ?thesis by blast
qed

lemma replaceElements_form_kept [simp]:
  "this_form (state_of (replaceElements html sel root s)) = this_form s"
  by (simp add: replaceElements_def Let_def split: option.splits)

lemma bindEvents_form_kept [simp]:
  "this_form (state_of (bindEvents t s)) = this_form s"
  by (simp add: bindEvents_def Let_def fold_addEventListener addEventListener_def
      split: option.splits)

lemma validation_keeps_form:
  "this_form (fst (handleInputValidation_begin t s)) = this_form s \<and>
   this_form (handleInputValidation_settled env grp out s) = this_form s"
proof -
  have a: "this_form (fst (handleInputValidation_begin t s)) = this_form s"
    by (cases "nvalue t = []")
       (simp_all add: handleInputValidation_begin_send warn_def,
        simp add: handleInputValidation_begin_def)
  have r: "this_form (state_of (requestForm_settled env out s)) = this_form s"
    by (simp add: requestForm_settled_def split: outcome.splits sum.splits)
  have b: "this_form (handleInputValidation_settled env grp out s) = this_form s"
  proof (cases "requestForm_settled env out s")
    case (Threw e s1)
    with r show ?thesis by (simp add: handleInputValidation_settled_def warn_def)
  next
    case (Ok v s1)
    obtain response html where v: "v = (response, html)" by (cases v)
    from Ok r have f1: "this_form s1 = this_form s" by simp
    show ?thesis
    proof (cases html)
      case None
      with Ok v f1 show ?thesis by (simp add: handleInputValidation_settled_def)
    next
      case (Some doc)
      have q: "this_form (state_of (replaceElements doc (Some grp) None s1)) = this_form s1" by simp
      show ?thesis
      proof (cases "replaceElements doc (Some grp) None s1")
        case (Threw e s2)
        with q f1 Ok v Some show ?thesis
          by (simp add: handleInputValidation_settled_def warn_def)
      next
        case Ok2: (Ok g s2)
        with q f1 have f2: "this_form s2 = this_form s" by simp
        have "this_form (case bindEvents t' s2 of Threw error s3 \<Rightarrow> warn error s3 | Ok _ s3 \<Rightarrow> s3)
                = this_form s2" for t'
          using bindEvents_form_kept [of t' s2]
          by (cases "bindEvents t' s2") (simp_all add: warn_def)
        with Ok v Some Ok2 f2 show ?thesis
          by (simp add: handleInputValidation_settled_def split: option.splits)
      qed
    qed
  qed
  from a b show ?thesis ..
qed

text \<open>
  A 4XX response whose body was read and holds no form leaves the reference null.
\<close>

lemma client_error_without_form:
  assumes "400 \<le> status response" and "status response \<le> 499"
    and "body response = Inr doc" and "\<not> external_redirect env response"
    and "first_match form_selector doc = None"
  shows "this_form (handleFormValidation_settled env (Resolved response) s) = None"
proof -
  have rs: "requestForm_settled env (Resolved response) s = Ok (response, Some doc) s"
    using assms(3,4) by (simp add: requestForm_settled_Resolved)
  have b: "status_4xx response doc s2 = Threw TypeError (s2\<lparr>this_form := None\<rparr>)" for s2
    using assms(1,2,5) by (simp add: status_4xx_def replaceElements_def bindEvents_def)
  show ?thesis
    unfolding handleFormValidation_settled_parsed [OF rs] b by (simp add: warn_def emit_def)
qed

text \<open>
  C7. A response with status 404 whose body holds no form leaves \<^verbatim>\<open>this._form\<close> null:
  \<^verbatim>\<open>replaceElements\<close> returns null and the handler stores it. The page keeps its form,
  but the next submission finds no form to read, sends nothing and logs a
  \<^verbatim>\<open>TypeError\<close>.
\<close>

theorem client_error_without_form_loses_form:
  "form_node demo_submitted = Some demo_form \<and>
   first_match form_selector errors_doc = None \<and>
   this_form (handleFormValidation_settled demo_env (Resolved not_found_404) demo_submitted) = None \<and>
   page (handleFormValidation_settled demo_env (Resolved not_found_404) demo_submitted) = demo_page \<and>
   snd (handleFormValidation_begin
          (handleFormValidation_settled demo_env (Resolved not_found_404) demo_submitted)) = None"
  by (simp add: run_defs demo_defs dom_simps form_node_def handleFormValidation_begin_def
      requestForm_send_def set_controller_def Let_def)

end
